theory Spec2Isabelle
  imports Main
begin

section \<open>Python values\<close>

text \<open>
  The values that occur in API objects and in table cells. \<open>DateTime\<close> carries a
  point in time (microseconds since 0001-01-01T00:00:00), \<open>Date\<close> a calendar date by
  its proleptic Gregorian ordinal (day 1 is 0001-01-01), as \<open>date.toordinal()\<close> gives it.
  \<open>NaN\<close> is the filler of pandas for a missing cell, \<open>NaT\<close> the missing timestamp.
  A dictionary is the list of its items in insertion order.
\<close>

datatype cell =
    PyNone
  | NaN
  | NaT
  | Num int
  | Str string
  | Flag bool
  | DateTime int
  | Date int
  | Dict "(string \<times> cell) list"
  | PyList "cell list"

type_synonym pydict = "(string \<times> cell) list"

text \<open>
  Exceptions are values. Each constructor is one Python exception class that the code
  under study can raise, with its argument; \<open>Upstream\<close> is an exception raised inside
  the request pipeline (\<open>TwitterRequest\<close>), which is outside the modelled sources: it
  carries the class name and the message.
\<close>

datatype error =
    OverflowError
  | KeyError cell
  | ValueError string
  | TypeError string
  | AttributeError string
  | Upstream string string

fun class_name :: "error \<Rightarrow> string" where
  "class_name OverflowError = ''OverflowError''"
| "class_name (KeyError k) = ''KeyError''"
| "class_name (ValueError m) = ''ValueError''"
| "class_name (TypeError m) = ''TypeError''"
| "class_name (AttributeError m) = ''AttributeError''"
| "class_name (Upstream c m) = c"

text \<open>Running a function over a list stops at the first element that raises.\<close>

fun map_raise :: "('a \<Rightarrow> error + 'b) \<Rightarrow> 'a list \<Rightarrow> error + 'b list" where
  "map_raise f [] = Inr []"
| "map_raise f (x # xs) =
     (case f x of
        Inl e \<Rightarrow> Inl e
      | Inr y \<Rightarrow> (case map_raise f xs of Inl e \<Rightarrow> Inl e | Inr ys \<Rightarrow> Inr (y # ys)))"

subsection \<open>datetime\<close>

text \<open>
  A naive \<open>datetime\<close> is the number of microseconds since 0001-01-01T00:00:00, between
  0 and \<open>datetime_max\<close> (9999-12-31T23:59:59.999999). A \<open>timedelta\<close> is a number of
  microseconds. Adding a timedelta raises OverflowError when the result leaves the range.
\<close>

type_synonym datetime = int

definition us_per_day :: int where
  "us_per_day = 86400000000"

definition MAXORDINAL :: int where
  "MAXORDINAL = 3652059"

definition datetime_max :: datetime where
  "datetime_max = MAXORDINAL * us_per_day - 1"

definition valid_datetime :: "datetime \<Rightarrow> bool" where
  "valid_datetime t \<longleftrightarrow> 0 \<le> t \<and> t \<le> datetime_max"

definition timedelta_days :: "int \<Rightarrow> int" where
  "timedelta_days n = n * us_per_day"

definition datetime_add :: "datetime \<Rightarrow> int \<Rightarrow> error + datetime" where
  "datetime_add t td =
     (if 0 \<le> t + td \<and> t + td \<le> datetime_max then Inr (t + td) else Inl OverflowError)"

text \<open>The proleptic Gregorian calendar of Python's \<open>datetime\<close> module.\<close>

definition is_leap :: "int \<Rightarrow> bool" where
  "is_leap y \<longleftrightarrow> y mod 4 = 0 \<and> (y mod 100 \<noteq> 0 \<or> y mod 400 = 0)"

definition DAYS_IN_MONTH :: "int list" where
  "DAYS_IN_MONTH = [-1, 31, 28, 31, 30, 31, 30, 31, 31, 30, 31, 30, 31]"

definition DAYS_BEFORE_MONTH :: "int list" where
  "DAYS_BEFORE_MONTH = [-1, 0, 31, 59, 90, 120, 151, 181, 212, 243, 273, 304, 334]"

definition days_before_year :: "int \<Rightarrow> int" where
  "days_before_year year =
     (let y = year - 1 in y * 365 + y div 4 - y div 100 + y div 400)"

definition days_before_month :: "int \<Rightarrow> int \<Rightarrow> int" where
  "days_before_month year month =
     DAYS_BEFORE_MONTH ! nat month + (if month > 2 \<and> is_leap year then 1 else 0)"

definition ymd2ord :: "int \<Rightarrow> int \<Rightarrow> int \<Rightarrow> int" where
  "ymd2ord year month day = days_before_year year + days_before_month year month + day"

definition ord2ymd :: "int \<Rightarrow> int \<times> int \<times> int" where
  "ord2ymd ordinal =
     (let n0 = ordinal - 1;
          n400 = n0 div 146097; n1 = n0 mod 146097;
          n100 = n1 div 36524; n2 = n1 mod 36524;
          n4 = n2 div 1461; n3 = n2 mod 1461;
          n1y = n3 div 365; n = n3 mod 365;
          year = n400 * 400 + 1 + n100 * 100 + n4 * 4 + n1y
      in if n1y = 4 \<or> n100 = 4 then (year - 1, 12, 31)
         else
           let leapyear = (n1y = 3 \<and> (n4 \<noteq> 24 \<or> n100 = 3));
               month = (n + 50) div 32;
               preceding = DAYS_BEFORE_MONTH ! nat month
                             + (if month > 2 \<and> leapyear then 1 else 0)
           in if preceding > n
              then
                let month' = month - 1;
                    preceding' = preceding
                       - (DAYS_IN_MONTH ! nat month'
                            + (if month' = 2 \<and> leapyear then 1 else 0))
                in (year, month', n - preceding' + 1)
              else (year, month, n - preceding + 1))"

text \<open>\<open>datetime(year, month, day, hour, minute)\<close>, as the module's constants are built.\<close>

definition datetime :: "int \<Rightarrow> int \<Rightarrow> int \<Rightarrow> int \<Rightarrow> int \<Rightarrow> datetime" where
  "datetime year month day hour minute =
     ((ymd2ord year month day - 1) * 86400 + hour * 3600 + minute * 60) * 1000000"

text \<open>Decimal rendering on a fixed number of digits (\<open>%02d\<close>, \<open>%04d\<close>, \<open>%06d\<close>).\<close>

fun zfill :: "nat \<Rightarrow> nat \<Rightarrow> string" where
  "zfill 0 n = []"
| "zfill (Suc w) n = zfill w (n div 10) @ [''0123456789'' ! (n mod 10)]"

definition isoformat :: "datetime \<Rightarrow> string" where
  "isoformat t =
     (let (y, m, d) = ord2ymd (t div us_per_day + 1);
          tod = t mod us_per_day;
          us = tod mod 1000000;
          secs = tod div 1000000;
          hh = secs div 3600; mi = (secs mod 3600) div 60; ss = secs mod 60
      in zfill 4 (nat y) @ ''-'' @ zfill 2 (nat m) @ ''-'' @ zfill 2 (nat d) @ ''T''
         @ zfill 2 (nat hh) @ '':'' @ zfill 2 (nat mi) @ '':'' @ zfill 2 (nat ss)
         @ (if us \<noteq> 0 then ''.'' @ zfill 6 (nat us) else []))"

section \<open>Dictionaries and data frames\<close>

text \<open>
  A Python dictionary keeps one value per key, in the order in which the keys were first
  inserted. Assigning to an existing key replaces the value in place.
\<close>

fun dict_set :: "('k \<times> 'v) list \<Rightarrow> 'k \<Rightarrow> 'v \<Rightarrow> ('k \<times> 'v) list" where
  "dict_set [] k v = [(k, v)]"
| "dict_set ((k', v') # d) k v =
     (if k' = k then (k, v) # d else (k', v') # dict_set d k v)"

definition dict_update :: "('k \<times> 'v) list \<Rightarrow> ('k \<times> 'v) list \<Rightarrow> ('k \<times> 'v) list" where
  "dict_update d items = foldl (\<lambda>acc (k, v). dict_set acc k v) d items"

definition dict_of_items :: "('k \<times> 'v) list \<Rightarrow> ('k \<times> 'v) list" where
  "dict_of_items items = dict_update [] items"

definition dict_pop :: "('k \<times> 'v) list \<Rightarrow> 'k \<Rightarrow> ('v \<times> ('k \<times> 'v) list) option" where
  "dict_pop d k =
     (case map_of d k of
        None \<Rightarrow> None
      | Some v \<Rightarrow> Some (v, filter (\<lambda>kv. fst kv \<noteq> k) d))"

text \<open>The distinct elements of a list, in the order of their first occurrence.\<close>

definition unique :: "'a list \<Rightarrow> 'a list" where
  "unique xs = rev (remdups (rev xs))"

text \<open>
  A \<open>pandas.DataFrame\<close> is modelled by its number of rows and its columns, each a label
  with the cells of the column from the first row to the last. The row index is not
  modelled: every operation below keeps the rows in their order.
\<close>

record dataframe =
  nrows :: nat
  columns :: "(string \<times> cell list) list"

definition column_names :: "dataframe \<Rightarrow> string list" where
  "column_names df = map fst (columns df)"

text \<open>A frame is well formed when every column has one cell per row.\<close>

definition wf_frame :: "dataframe \<Rightarrow> bool" where
  "wf_frame df \<longleftrightarrow> (\<forall>c \<in> set (columns df). length (snd c) = nrows df)"

text \<open>
  \<open>pd.DataFrame(records)\<close> for a list of dictionaries: the columns are the keys in the
  order of their first occurrence, and a row that lacks a key gets \<open>NaN\<close>.
\<close>

definition DataFrame :: "pydict list \<Rightarrow> dataframe" where
  "DataFrame records =
     \<lparr>nrows = length records,
      columns = map (\<lambda>n. (n, map (\<lambda>r. case map_of r n of None \<Rightarrow> NaN | Some v \<Rightarrow> v) records))
                    (unique (concat (map (map fst) records)))\<rparr>"

text \<open>\<open>df[c]\<close> raises KeyError for a label that is not a column.\<close>

definition getitem :: "dataframe \<Rightarrow> string \<Rightarrow> error + cell list" where
  "getitem df c =
     (case map_of (columns df) c of None \<Rightarrow> Inl (KeyError (Str c)) | Some vs \<Rightarrow> Inr vs)"

text \<open>\<open>df[c] = series\<close> replaces the column in place, or appends it as the last one.\<close>

definition setitem :: "dataframe \<Rightarrow> string \<Rightarrow> cell list \<Rightarrow> dataframe" where
  "setitem df c vs = df\<lparr>columns := dict_set (columns df) c vs\<rparr>"

text \<open>\<open>df[c] = value\<close> with a scalar fills the column with that value in every row.\<close>

definition setitem_scalar :: "dataframe \<Rightarrow> string \<Rightarrow> cell \<Rightarrow> dataframe" where
  "setitem_scalar df c v = setitem df c (replicate (nrows df) v)"

text \<open>
  \<open>df[[c1, ..., cn]]\<close> keeps the rows and takes the listed columns in the listed order;
  it raises KeyError, naming the labels that are missing, when there is one.
\<close>

definition select :: "dataframe \<Rightarrow> string list \<Rightarrow> error + dataframe" where
  "select df names =
     (let missing = filter (\<lambda>n. map_of (columns df) n = None) names
      in if missing \<noteq> [] then Inl (KeyError (PyList (map Str missing)))
         else Inr (df\<lparr>columns :=
                map (\<lambda>n. (n, case map_of (columns df) n of None \<Rightarrow> [] | Some vs \<Rightarrow> vs)) names\<rparr>))"

text \<open>\<open>df.rename(columns=mapping)\<close> relabels the columns that the mapping names.\<close>

definition rename :: "dataframe \<Rightarrow> (string \<times> string) list \<Rightarrow> dataframe" where
  "rename df mapping =
     df\<lparr>columns :=
          map (\<lambda>(n, vs). (case map_of mapping n of None \<Rightarrow> n | Some n' \<Rightarrow> n', vs)) (columns df)\<rparr>"

text \<open>\<open>df.assign(c = f)\<close> computes the new column from the frame and stores it.\<close>

definition assign :: "dataframe \<Rightarrow> string \<Rightarrow> (dataframe \<Rightarrow> error + cell list) \<Rightarrow> error + dataframe" where
  "assign df c f = (case f df of Inl e \<Rightarrow> Inl e | Inr vs \<Rightarrow> Inr (setitem df c vs))"

text \<open>\<open>df.drop(columns=[c])\<close> raises KeyError when the label is not a column.\<close>

definition drop_column :: "dataframe \<Rightarrow> string \<Rightarrow> error + dataframe" where
  "drop_column df c =
     (if map_of (columns df) c = None then Inl (KeyError (PyList [Str c]))
      else Inr (df\<lparr>columns := filter (\<lambda>kv. fst kv \<noteq> c) (columns df)\<rparr>))"

text \<open>
  \<open>pd.concat(frames)\<close> along the rows: it raises ValueError for an empty list; the
  result has the union of the columns in the order of their first occurrence, the rows
  of the frames one frame after the other, and \<open>NaN\<close> where a frame lacks a column.
\<close>

definition column_or_nan :: "string \<Rightarrow> dataframe \<Rightarrow> cell list" where
  "column_or_nan n df =
     (case map_of (columns df) n of None \<Rightarrow> replicate (nrows df) NaN | Some vs \<Rightarrow> vs)"

definition stack :: "dataframe list \<Rightarrow> dataframe" where
  "stack dfs =
     \<lparr>nrows = sum_list (map nrows dfs),
      columns = map (\<lambda>n. (n, concat (map (column_or_nan n) dfs)))
                    (unique (concat (map column_names dfs)))\<rparr>"

definition concat_frames :: "dataframe list \<Rightarrow> error + dataframe" where
  "concat_frames dfs =
     (if dfs = [] then Inl (ValueError ''No objects to concatenate'') else Inr (stack dfs))"

text \<open>
  \<open>pd.to_datetime(series).dt.date\<close>, cell by cell: a timestamp gives its calendar
  date, a missing value gives \<open>NaT\<close>. API objects carry parsed \<open>datetime\<close> values in
  their timestamp fields; a cell of another kind is rejected here.
\<close>

definition date_of :: "int \<Rightarrow> int" where
  "date_of t = t div us_per_day + 1"

fun to_date :: "cell \<Rightarrow> error + cell" where
  "to_date (DateTime t) = Inr (Date (date_of t))"
| "to_date PyNone = Inr NaT"
| "to_date NaN = Inr NaT"
| "to_date NaT = Inr NaT"
| "to_date v = Inl (TypeError ''not convertible to datetime'')"

section \<open>The normalizer: \<open>TwitterDataCleaner\<close>\<close>

text \<open>
  An API object (a tweet or a user) is modelled by the list of the keys of its \<open>data\<close>,
  each with the value that \<open>getattr\<close> returns for it. The response has the list of
  tweets in \<open>data\<close> (\<open>None\<close> when the search found nothing) and the dictionary
  \<open>includes\<close> of the expanded objects (\<open>includes\<close> is a reserved word here, so
  both fields carry the prefix \<open>response_\<close>).
\<close>

record response =
  response_data :: "pydict list option"
  response_includes :: "(string \<times> pydict list) list"

text \<open>The body of the loop of \<open>extract_tweet_data\<close>, for one tweet.\<close>

definition tweet_record :: "pydict \<Rightarrow> error + pydict" where
  "tweet_record tweet =
     (let tweet_dict = dict_of_items tweet
      in case dict_pop tweet_dict ''public_metrics'' of
           None \<Rightarrow> Inl (KeyError (Str ''public_metrics''))
         | Some (public_metrics, rest) \<Rightarrow>
             (case public_metrics of
                Dict d \<Rightarrow> Inr (dict_update rest d)
              | _ \<Rightarrow> Inl (TypeError ''public_metrics is not a mapping'')))"

definition extract_tweet_data :: "response \<Rightarrow> error + dataframe" where
  "extract_tweet_data resp =
     (case response_data resp of
        None \<Rightarrow> Inl (TypeError ''NoneType object is not iterable'')
      | Some ts \<Rightarrow>
          (case map_raise tweet_record ts of
             Inl e \<Rightarrow> Inl e
           | Inr tweet_data \<Rightarrow> Inr (DataFrame tweet_data)))"

text \<open>The body of the first loop of \<open>extract_user_data\<close>, for one user.\<close>

definition user_record :: "pydict \<Rightarrow> error + pydict" where
  "user_record user =
     (let user_data = dict_of_items (map (\<lambda>(k, v). (''user_'' @ k, v)) user)
      in case dict_pop user_data ''user_public_metrics'' of
           None \<Rightarrow> Inl (KeyError (Str ''user_public_metrics''))
         | Some (public_metrics_user, rest) \<Rightarrow>
             (case public_metrics_user of
                Dict d \<Rightarrow> Inr (dict_update rest (map (\<lambda>(k, v). (''user_'' @ k, v)) d))
              | _ \<Rightarrow> Inl (AttributeError ''items'')))"

text \<open>\<open>user.id\<close>.\<close>

definition user_id :: "pydict \<Rightarrow> error + cell" where
  "user_id user = (case map_of user ''id'' of None \<Rightarrow> Inl (AttributeError ''id'') | Some v \<Rightarrow> Inr v)"

text \<open>
  The dictionary \<open>users\<close> after the first loop: keyed by user id, each value the
  flattened record of the user.
\<close>

definition users_lookup :: "response \<Rightarrow> error + (cell \<times> pydict) list" where
  "users_lookup resp =
     (case map_of (response_includes resp) ''users'' of
        None \<Rightarrow> Inl (KeyError (Str ''users''))
      | Some us \<Rightarrow>
          (case map_raise (\<lambda>user. case user_id user of
                                     Inl e \<Rightarrow> Inl e | Inr i \<Rightarrow> Inr (i, user)) us of
             Inl e \<Rightarrow> Inl e
           | Inr items \<Rightarrow>
               map_raise (\<lambda>(key, user). case user_record user of
                                           Inl e \<Rightarrow> Inl e | Inr user_data \<Rightarrow> Inr (key, user_data))
                         (dict_of_items items)))"

text \<open>
  The column labels of \<open>pd.json_normalize(series)\<close> for a series of dictionaries: in each
  record the keys with a value that is not a dictionary come first, then the keys of the
  nested dictionaries, joined to the path with a dot.
\<close>

fun normalise_value :: "string \<Rightarrow> cell \<Rightarrow> string list"
  and normalise_items :: "string \<Rightarrow> pydict \<Rightarrow> string list" where
  "normalise_value new_key (Dict d) = normalise_items new_key d"
| "normalise_value new_key v = [new_key]"
| "normalise_items key_string [] = []"
| "normalise_items key_string ((k, v) # d) =
     normalise_value (if key_string = [] then k else key_string @ ''.'' @ k) v
       @ normalise_items key_string d"

definition is_dict :: "cell \<Rightarrow> bool" where
  "is_dict v = (case v of Dict d \<Rightarrow> True | _ \<Rightarrow> False)"

definition normalise_json_ordered :: "cell \<Rightarrow> string list" where
  "normalise_json_ordered v =
     (case v of
        Dict d \<Rightarrow> map fst (filter (\<lambda>kv. \<not> is_dict (snd kv)) d)
                   @ normalise_items [] (filter (\<lambda>kv. is_dict (snd kv)) d)
      | _ \<Rightarrow> [])"

definition json_normalize_columns :: "cell list \<Rightarrow> string list" where
  "json_normalize_columns series = unique (concat (map normalise_json_ordered series))"

text \<open>\<open>x.get(col, None)\<close> on a cell of the column \<open>user_data\<close>.\<close>

definition cell_get :: "string \<Rightarrow> cell \<Rightarrow> error + cell" where
  "cell_get col x =
     (case x of
        Dict d \<Rightarrow> Inr (case map_of d col of None \<Rightarrow> PyNone | Some v \<Rightarrow> v)
      | _ \<Rightarrow> Inl (AttributeError ''get''))"

text \<open>The second loop of \<open>extract_user_data\<close>: one new column per label.\<close>

fun user_columns_loop :: "string list \<Rightarrow> dataframe \<Rightarrow> error + dataframe" where
  "user_columns_loop [] df = Inr df"
| "user_columns_loop (col # rest) df =
     (case getitem df ''user_data'' of
        Inl e \<Rightarrow> Inl e
      | Inr series \<Rightarrow>
          (case map_raise (cell_get col) series of
             Inl e \<Rightarrow> Inl e
           | Inr vs \<Rightarrow> user_columns_loop rest (setitem df col vs)))"

definition extract_user_data :: "response \<Rightarrow> dataframe \<Rightarrow> error + dataframe" where
  "extract_user_data resp df =
     (case users_lookup resp of
        Inl e \<Rightarrow> Inl e
      | Inr users_dict \<Rightarrow>
          (case getitem df ''author_id'' of
             Inl e \<Rightarrow> Inl e
           | Inr author_ids \<Rightarrow>
               (case map_raise (\<lambda>x. case map_of users_dict x of
                                        None \<Rightarrow> Inl (KeyError x)
                                      | Some user_data \<Rightarrow> Inr (Dict user_data)) author_ids of
                  Inl e \<Rightarrow> Inl e
                | Inr user_data_col \<Rightarrow>
                    (case user_columns_loop (json_normalize_columns user_data_col)
                            (setitem df ''user_data'' user_data_col) of
                       Inl e \<Rightarrow> Inl e
                     | Inr df' \<Rightarrow> drop_column df' ''user_data''))))"

definition tweet_columns :: "string list" where
  "tweet_columns =
     [''id'', ''author_id'', ''created_at'', ''text'', ''possibly_sensitive'', ''retweet_count'',
      ''reply_count'', ''like_count'', ''quote_count'', ''impression_count'', ''lang'']"

definition user_columns :: "string list" where
  "user_columns =
     [''user_id'', ''user_username'', ''user_name'', ''user_location'', ''user_created_at'',
      ''user_description'', ''user_profile_image_url'', ''user_verified'',
      ''user_followers_count'', ''user_following_count'', ''user_tweet_count'',
      ''user_listed_count'']"

definition segregate_data :: "dataframe \<Rightarrow> error + dataframe \<times> dataframe" where
  "segregate_data df =
     (case select df tweet_columns of
        Inl e \<Rightarrow> Inl e
      | Inr tweets_df \<Rightarrow>
          (case select df user_columns of
             Inl e \<Rightarrow> Inl e
           | Inr users_df \<Rightarrow> Inr (tweets_df, users_df)))"

text \<open>
  \<open>clean_data\<close> takes no argument: the two prefixes are the local constants \<open>"tw_"\<close>
  and \<open>"us_"\<close>, and the columns that are cast are named \<open>tw_fecha\<close> and
  \<open>us_fecha_creacion\<close> literally.
\<close>

definition tweets_mapping :: "string \<Rightarrow> (string \<times> string) list" where
  "tweets_mapping prefix =
     [(''id'', prefix @ ''tweet''),
      (''author_id'', prefix @ ''usuario''),
      (''created_at'', prefix @ ''fecha''),
      (''text'', prefix @ ''texto''),
      (''possibly_sensitive'', prefix @ ''sensitivo''),
      (''retweet_count'', prefix @ ''retweets''),
      (''reply_count'', prefix @ ''replies''),
      (''like_count'', prefix @ ''likes''),
      (''quote_count'', prefix @ ''quotes''),
      (''impression_count'', prefix @ ''impresiones''),
      (''lang'', prefix @ ''idioma'')]"

definition users_mapping :: "string \<Rightarrow> (string \<times> string) list" where
  "users_mapping prefix =
     [(''user_id'', prefix @ ''usuario''),
      (''user_username'', prefix @ ''handle''),
      (''user_name'', prefix @ ''nombre''),
      (''user_location'', prefix @ ''ubicacion''),
      (''user_created_at'', prefix @ ''fecha_creacion''),
      (''user_description'', prefix @ ''descripcion''),
      (''user_profile_image_url'', prefix @ ''imagen''),
      (''user_verified'', prefix @ ''verificado''),
      (''user_followers_count'', prefix @ ''seguidores''),
      (''user_following_count'', prefix @ ''siguiendo''),
      (''user_tweet_count'', prefix @ ''tweets''),
      (''user_listed_count'', prefix @ ''listas'')]"

text \<open>\<open>lambda x: pd.to_datetime(x.c).dt.date\<close>; \<open>x.c\<close> raises AttributeError without the column.\<close>

definition date_column :: "string \<Rightarrow> dataframe \<Rightarrow> error + cell list" where
  "date_column c x =
     (case map_of (columns x) c of
        None \<Rightarrow> Inl (AttributeError c)
      | Some vs \<Rightarrow> map_raise to_date vs)"

definition clean_data :: "dataframe \<times> dataframe \<Rightarrow> error + dataframe \<times> dataframe" where
  "clean_data frames =
     (case assign (rename (fst frames) (tweets_mapping ''tw_'')) ''tw_fecha''
                  (date_column ''tw_fecha'') of
        Inl e \<Rightarrow> Inl e
      | Inr tweets_df \<Rightarrow>
          (case assign (rename (snd frames) (users_mapping ''us_'')) ''us_fecha_creacion''
                       (date_column ''us_fecha_creacion'') of
             Inl e \<Rightarrow> Inl e
           | Inr users_df \<Rightarrow> Inr (tweets_df, users_df)))"

definition run :: "response \<Rightarrow> error + dataframe \<times> dataframe" where
  "run resp =
     (case extract_tweet_data resp of
        Inl e \<Rightarrow> Inl e
      | Inr df \<Rightarrow>
          (case extract_user_data resp df of
             Inl e \<Rightarrow> Inl e
           | Inr df' \<Rightarrow>
               (case segregate_data df' of
                  Inl e \<Rightarrow> Inl e
                | Inr frames \<Rightarrow> clean_data frames)))"

section \<open>The collector: \<open>DownloadTweets.generate_dates\<close>\<close>

text \<open>
  The window size is the local constant \<open>delta = timedelta(days=1)\<close>. The loop appends
  one pair of rendered bounds per iteration and advances by \<open>delta\<close>; the addition can
  raise OverflowError, which ends the loop with that error.
\<close>

definition delta :: int where
  "delta = timedelta_days 1"

function dates_loop ::
  "datetime \<Rightarrow> datetime \<Rightarrow> (string \<times> string) list \<Rightarrow> error + (string \<times> string) list" where
  "dates_loop date end_date acc =
     (if date < end_date
      then (case datetime_add date delta of
              Inl e \<Rightarrow> Inl e
            | Inr next_date \<Rightarrow>
                dates_loop next_date end_date
                  (acc @ [(isoformat date @ ''Z'', isoformat next_date @ ''Z'')]))
      else Inr acc)"
  by pat_completeness auto
termination
  by (relation "measure (\<lambda>(date, end_date, acc). nat (end_date - date))")
     (auto simp: datetime_add_def delta_def timedelta_days_def us_per_day_def
           split: if_splits)

declare dates_loop.simps [simp del]

text \<open>
  The object. \<open>dates\<close>, \<open>tweets\<close> and \<open>users\<close> are attributes that exist only once
  \<open>generate_dates\<close> and \<open>download_tweets\<close> have set them.
\<close>

record DownloadTweets =
  candidates :: "string list"
  start_date :: datetime
  end_date :: datetime
  max_results :: int
  tweets_prefix :: string
  users_prefix :: string
  dates :: "(string \<times> string) list option"
  tweets :: "dataframe option"
  users :: "dataframe option"

definition generate_dates :: "DownloadTweets \<Rightarrow> error + DownloadTweets" where
  "generate_dates self =
     (case dates_loop (start_date self) (end_date self) [] of
        Inl e \<Rightarrow> Inl e
      | Inr ds \<Rightarrow> Inr (self\<lparr>dates := Some ds\<rparr>))"

text \<open>The pair appended for the window that starts at \<open>date\<close>.\<close>

definition date_pair :: "datetime \<Rightarrow> string \<times> string" where
  "date_pair date = (isoformat date @ ''Z'', isoformat (date + delta) @ ''Z'')"

subsection \<open>The world around the collector\<close>

text \<open>
  \<open>get_batch\<close> builds a \<open>TwitterRequest\<close> (query, start time, end time, maximum number of
  results) and runs its pipeline (\<open>make_request\<close>, \<open>tweets_to_dataframe\<close>,
  \<open>users_to_dataframe\<close>, \<open>segregate_dataframe\<close>, \<open>preprocess_data\<close> with the two
  prefixes). That class is not part of the modelled sources: the pipeline is a parameter,
  a function of the request, the two prefixes and the state of the remote service that
  returns the two tables or raises, and the next state of the service.
\<close>

datatype request =
  TwitterRequest (query: string) (start_time: string) (end_time: string) (limit: int)

type_synonym 'w pipeline =
  "request \<Rightarrow> string \<Rightarrow> string \<Rightarrow> 'w \<Rightarrow> (error + dataframe \<times> dataframe) \<times> 'w"

text \<open>The lines written to the log, by their content.\<close>

datatype message =
    Initialized
  | BatchDownloaded nat string
  | DatesGenerated nat
  | TotalDownloaded nat nat
  | FailedToDownload error
  | DataAppended
  | DataSaved

datatype log_entry = INFO message | ERROR message

datatype csv_line = Header "string list" | Row "cell list"

text \<open>
  The world: the state of the remote service, the requests run so far (oldest first),
  the log, and the directories and csv files on disk.
\<close>

record 'w world =
  service :: 'w
  requests :: "request list"
  logged :: "log_entry list"
  dirs :: "string list"
  files :: "(string \<times> csv_line list) list"

definition info :: "message \<Rightarrow> 'w world \<Rightarrow> 'w world" where
  "info m w = w\<lparr>logged := logged w @ [INFO m]\<rparr>"

subsection \<open>\<open>get_batch\<close> and \<open>download_tweets\<close>\<close>

definition get_batch ::
  "'w pipeline \<Rightarrow> DownloadTweets \<Rightarrow> string \<Rightarrow> string \<Rightarrow> string \<Rightarrow> 'w world
     \<Rightarrow> (error + dataframe \<times> dataframe) \<times> 'w world" where
  "get_batch pipeline self candidate start stop w =
     (let req = TwitterRequest candidate start stop (max_results self);
          (r, s) = pipeline req (tweets_prefix self) (users_prefix self) (service w);
          w1 = w\<lparr>service := s, requests := requests w @ [req]\<rparr>
      in case r of
           Inl e \<Rightarrow> (Inl e, w1)
         | Inr (tws, usrs) \<Rightarrow>
             (let tws' = setitem_scalar tws ''candidato'' (Str candidate)
              in (Inr (tws', usrs), info (BatchDownloaded (nrows tws') candidate) w1)))"

text \<open>The inner loop, over the date pairs, with the two collectors of the candidate.\<close>

fun collect_dates ::
  "'w pipeline \<Rightarrow> DownloadTweets \<Rightarrow> string \<Rightarrow> (string \<times> string) list
     \<Rightarrow> dataframe list \<times> dataframe list \<Rightarrow> 'w world
     \<Rightarrow> (error + dataframe list \<times> dataframe list) \<times> 'w world" where
  "collect_dates pipeline self candidate [] acc w = (Inr acc, w)"
| "collect_dates pipeline self candidate ((start, stop) # ds) (tc, uc) w =
     (case get_batch pipeline self candidate start stop w of
        (Inl e, w') \<Rightarrow> (Inl e, w')
      | (Inr (tws, usrs), w') \<Rightarrow>
          collect_dates pipeline self candidate ds (tc @ [tws], uc @ [usrs]) w')"

text \<open>The outer loop, over the candidates, with \<open>tweets_collector\<close> and \<open>users_collector\<close>.\<close>

fun collect_candidates ::
  "'w pipeline \<Rightarrow> DownloadTweets \<Rightarrow> string list \<Rightarrow> (string \<times> string) list
     \<Rightarrow> dataframe list \<times> dataframe list \<Rightarrow> 'w world
     \<Rightarrow> (error + dataframe list \<times> dataframe list) \<times> 'w world" where
  "collect_candidates pipeline self [] ds acc w = (Inr acc, w)"
| "collect_candidates pipeline self (candidate # cs) ds (tc, uc) w =
     (case collect_dates pipeline self candidate ds ([], []) w of
        (Inl e, w') \<Rightarrow> (Inl e, w')
      | (Inr (dates_tweets_collector, dates_users_collector), w') \<Rightarrow>
          (case concat_frames dates_tweets_collector of
             Inl e \<Rightarrow> (Inl e, w')
           | Inr t \<Rightarrow>
               (case concat_frames dates_users_collector of
                  Inl e \<Rightarrow> (Inl e, w')
                | Inr u \<Rightarrow> collect_candidates pipeline self cs ds (tc @ [t], uc @ [u]) w')))"

text \<open>
  \<open>download_tweets\<close> returns the two tables or the exception, the object and the world.
  When an exception leaves the method, the object is the one after \<open>generate_dates\<close>:
  the attributes \<open>tweets\<close> and \<open>users\<close> are set by the last two statements only.
  (When \<open>generate_dates\<close> itself raises, the caller drops the object; the model returns
  it as it was before the call.)
\<close>

definition download_tweets ::
  "'w pipeline \<Rightarrow> DownloadTweets \<Rightarrow> 'w world
     \<Rightarrow> (error + dataframe \<times> dataframe) \<times> DownloadTweets \<times> 'w world" where
  "download_tweets pipeline self w =
     (case generate_dates self of
        Inl e \<Rightarrow> (Inl e, self, w)
      | Inr self1 \<Rightarrow>
          (case dates self1 of
             None \<Rightarrow> (Inl (AttributeError ''dates''), self1, w)
           | Some ds \<Rightarrow>
               (case collect_candidates pipeline self1 (candidates self1) ds ([], [])
                       (info (DatesGenerated (length ds)) w) of
                  (Inl e, w') \<Rightarrow> (Inl e, self1, w')
                | (Inr (tweets_collector, users_collector), w') \<Rightarrow>
                    (case concat_frames tweets_collector of
                       Inl e \<Rightarrow> (Inl e, self1, w')
                     | Inr t \<Rightarrow>
                         (case concat_frames users_collector of
                            Inl e \<Rightarrow> (Inl e, self1\<lparr>tweets := Some t\<rparr>, w')
                          | Inr u \<Rightarrow>
                              (Inr (t, u), self1\<lparr>tweets := Some t, users := Some u\<rparr>,
                               info (TotalDownloaded (nrows t) (nrows u)) w'))))))"

subsection \<open>The calls of \<open>get_batch\<close>, one after the other\<close>

text \<open>
  The pairs of a candidate and a date pair, candidate by candidate and, for each
  candidate, in the order of the date pairs.
\<close>

definition cells :: "string list \<Rightarrow> (string \<times> string) list \<Rightarrow> (string \<times> string \<times> string) list" where
  "cells cs ds = concat (map (\<lambda>c. map (Pair c) ds) cs)"

text \<open>The request that \<open>get_batch\<close> builds for a pair.\<close>

definition request_of :: "DownloadTweets \<Rightarrow> string \<times> string \<times> string \<Rightarrow> request" where
  "request_of self x =
     (case x of (c, start, stop) \<Rightarrow> TwitterRequest c start stop (max_results self))"

text \<open>
  One call of \<open>get_batch\<close> per pair of a list, in the order of the list, up to the first
  call that raises: the batches returned, or the exception, and the world afterwards.
  The two nested loops are compared with this single loop.
\<close>

fun fetch_all ::
  "'w pipeline \<Rightarrow> DownloadTweets \<Rightarrow> (string \<times> string \<times> string) list \<Rightarrow> 'w world
     \<Rightarrow> (error + (dataframe \<times> dataframe) list) \<times> 'w world" where
  "fetch_all pipeline self [] w = (Inr [], w)"
| "fetch_all pipeline self ((candidate, start, stop) # rest) w =
     (case get_batch pipeline self candidate start stop w of
        (Inl e, w') \<Rightarrow> (Inl e, w')
      | (Inr b, w') \<Rightarrow>
          (case fetch_all pipeline self rest w' of
             (Inl e, w'') \<Rightarrow> (Inl e, w'')
           | (Inr bs, w'') \<Rightarrow> (Inr (b # bs), w'')))"

subsection \<open>The module: its constants, \<open>main\<close> and the script\<close>

definition module_candidates :: "string list" where
  "module_candidates =
     [''carlos pineda'', ''sandra torres'', ''edmond mulet'', ''zury rios'', ''manuel conde'']"

definition module_start_date :: datetime where
  "module_start_date = datetime 2023 5 21 14 0"

definition module_end_date :: datetime where
  "module_end_date = datetime 2023 5 27 13 0"

definition module_max_results :: int where
  "module_max_results = 10"

definition module_tweets_prefix :: string where
  "module_tweets_prefix = ''tw_''"

definition module_users_prefix :: string where
  "module_users_prefix = ''us_''"

text \<open>\<open>DownloadTweets.__init__\<close>: it stores the six parameters and logs one line.\<close>

definition new_object ::
  "string list \<Rightarrow> datetime \<Rightarrow> datetime \<Rightarrow> int \<Rightarrow> string \<Rightarrow> string \<Rightarrow> DownloadTweets" where
  "new_object cs sd ed mr tp up =
     \<lparr>candidates = cs, start_date = sd, end_date = ed, max_results = mr,
      tweets_prefix = tp, users_prefix = up, dates = None, tweets = None, users = None\<rparr>"

definition init ::
  "string list \<Rightarrow> datetime \<Rightarrow> datetime \<Rightarrow> int \<Rightarrow> string \<Rightarrow> string \<Rightarrow> 'w world
     \<Rightarrow> DownloadTweets \<times> 'w world" where
  "init cs sd ed mr tp up w = (new_object cs sd ed mr tp up, info Initialized w)"

text \<open>The object that \<open>main\<close> builds from the constants of the module.\<close>

definition module_object :: DownloadTweets where
  "module_object =
     new_object module_candidates module_start_date module_end_date module_max_results
       module_tweets_prefix module_users_prefix"

text \<open>\<open>main\<close>: any exception is logged at error level and raised again.\<close>

definition main :: "'w pipeline \<Rightarrow> 'w world \<Rightarrow> (error + dataframe \<times> dataframe) \<times> 'w world" where
  "main pipeline w =
     (let (from_twitter, w1) =
            init module_candidates module_start_date module_end_date module_max_results
                 module_tweets_prefix module_users_prefix w
      in case download_tweets pipeline from_twitter w1 of
           (Inl e, self', w2) \<Rightarrow> (Inl e, w2\<lparr>logged := logged w2 @ [ERROR (FailedToDownload e)]\<rparr>)
         | (Inr r, self', w2) \<Rightarrow> (Inr r, w2))"

text \<open>
  \<open>df.to_csv(path, mode='a', index=False, header=h)\<close> appends to the file, which it
  creates when absent: the header line when \<open>h\<close> holds, then one line per row.
\<close>

definition rows_of :: "dataframe \<Rightarrow> cell list list" where
  "rows_of df = map (\<lambda>i. map (\<lambda>c. snd c ! i) (columns df)) [0..<nrows df]"

definition to_csv :: "dataframe \<Rightarrow> string \<Rightarrow> bool \<Rightarrow> 'w world \<Rightarrow> 'w world" where
  "to_csv df path header w =
     w\<lparr>files := dict_set (files w) path
          ((case map_of (files w) path of None \<Rightarrow> [] | Some ls \<Rightarrow> ls)
           @ (if header then [Header (column_names df)] else [])
           @ map Row (rows_of df))\<rparr>"

text \<open>
  The statements under \<open>__name__ == "__main__"\<close>. An exception of \<open>main\<close> ends the
  process there; the result is the exception, if any, and the world.
\<close>

definition script :: "'w pipeline \<Rightarrow> 'w world \<Rightarrow> error option \<times> 'w world" where
  "script pipeline w =
     (case main pipeline w of
        (Inl e, w1) \<Rightarrow> (Some e, w1)
      | (Inr (tws, usrs), w1) \<Rightarrow>
          (let w2 = (if ''data'' \<in> set (dirs w1) then w1
                     else w1\<lparr>dirs := dirs w1 @ [''data'']\<rparr>);
               tweets_exist = (map_of (files w2) ''data/tweets.csv'' \<noteq> None);
               users_exist = (map_of (files w2) ''data/users.csv'' \<noteq> None);
               w3 = to_csv tws ''data/tweets.csv'' (\<not> tweets_exist) w2;
               w4 = to_csv usrs ''data/users.csv'' (\<not> users_exist) w3
           in (None, info (if tweets_exist then DataAppended else DataSaved) w4)))"

subsection \<open>Example inputs\<close>

text \<open>Two candidates over two whole days, from 2023-05-21T00:00 to 2023-05-23T00:00.\<close>

definition two_day_object :: DownloadTweets where
  "two_day_object =
     new_object [''alice'', ''bob''] (datetime 2023 5 21 0 0) (datetime 2023 5 23 0 0) 10
       ''tw_'' ''us_''"


text \<open>A range within the last day that a datetime can hold.\<close>

definition last_day_object :: DownloadTweets where
  "last_day_object =
     new_object module_candidates (datetime 9999 12 31 0 0) (datetime 9999 12 31 12 0) 10
       ''tw_'' ''us_''"

text \<open>A response with two tweets of the same author.\<close>

definition example_metrics :: cell where
  "example_metrics =
     Dict [(''retweet_count'', Num 0), (''reply_count'', Num 1), (''like_count'', Num 2),
           (''quote_count'', Num 3), (''impression_count'', Num 4)]"

definition example_tweet_1 :: pydict where
  "example_tweet_1 =
     [(''id'', Num 1), (''author_id'', Num 7),
      (''created_at'', DateTime (datetime 2023 5 21 14 0)), (''text'', Str ''hola''),
      (''possibly_sensitive'', Flag False), (''public_metrics'', example_metrics),
      (''lang'', Str ''es'')]"

definition example_tweet_2 :: pydict where
  "example_tweet_2 =
     [(''id'', Num 2), (''author_id'', Num 7),
      (''created_at'', DateTime (datetime 2023 5 21 0 0)), (''text'', Str ''adios''),
      (''possibly_sensitive'', Flag False), (''public_metrics'', example_metrics),
      (''lang'', Str ''es'')]"

definition example_user :: pydict where
  "example_user =
     [(''id'', Num 7), (''username'', Str ''u7''), (''name'', Str ''U''),
      (''location'', Str ''GT''), (''created_at'', DateTime (datetime 2023 5 21 14 0)),
      (''description'', Str ''d''), (''profile_image_url'', Str ''p''),
      (''verified'', Flag False),
      (''public_metrics'',
       Dict [(''followers_count'', Num 10), (''following_count'', Num 11),
             (''tweet_count'', Num 12), (''listed_count'', Num 13)])]"

definition example_response :: response where
  "example_response =
     \<lparr>response_data = Some [example_tweet_1, example_tweet_2],
      response_includes = [(''users'', [example_user])]\<rparr>"

text \<open>The two tables of that response.\<close>

definition example_tweets_frame :: dataframe where
  "example_tweets_frame =
     \<lparr>nrows = 2,
      columns =
        [(''tw_tweet'', [Num 1, Num 2]),
         (''tw_usuario'', [Num 7, Num 7]),
         (''tw_fecha'', [Date 738661, Date 738661]),
         (''tw_texto'', [Str ''hola'', Str ''adios'']),
         (''tw_sensitivo'', [Flag False, Flag False]),
         (''tw_retweets'', [Num 0, Num 0]),
         (''tw_replies'', [Num 1, Num 1]),
         (''tw_likes'', [Num 2, Num 2]),
         (''tw_quotes'', [Num 3, Num 3]),
         (''tw_impresiones'', [Num 4, Num 4]),
         (''tw_idioma'', [Str ''es'', Str ''es''])]\<rparr>"

definition example_users_frame :: dataframe where
  "example_users_frame =
     \<lparr>nrows = 2,
      columns =
        [(''us_usuario'', [Num 7, Num 7]),
         (''us_handle'', [Str ''u7'', Str ''u7'']),
         (''us_nombre'', [Str ''U'', Str ''U'']),
         (''us_ubicacion'', [Str ''GT'', Str ''GT'']),
         (''us_fecha_creacion'', [Date 738661, Date 738661]),
         (''us_descripcion'', [Str ''d'', Str ''d'']),
         (''us_imagen'', [Str ''p'', Str ''p'']),
         (''us_verificado'', [Flag False, Flag False]),
         (''us_seguidores'', [Num 10, Num 10]),
         (''us_siguiendo'', [Num 11, Num 11]),
         (''us_tweets'', [Num 12, Num 12]),
         (''us_listas'', [Num 13, Num 13])]\<rparr>"

text \<open>The enriched table of that response, before it is split in two.\<close>

definition example_enriched_frame :: dataframe where
  "example_enriched_frame =
     \<lparr>nrows = 2,
      columns =
        [(''id'', [Num 1, Num 2]),
         (''author_id'', [Num 7, Num 7]),
         (''created_at'', [DateTime (datetime 2023 5 21 14 0), DateTime (datetime 2023 5 21 0 0)]),
         (''text'', [Str ''hola'', Str ''adios'']),
         (''possibly_sensitive'', [Flag False, Flag False]),
         (''lang'', [Str ''es'', Str ''es'']),
         (''retweet_count'', [Num 0, Num 0]),
         (''reply_count'', [Num 1, Num 1]),
         (''like_count'', [Num 2, Num 2]),
         (''quote_count'', [Num 3, Num 3]),
         (''impression_count'', [Num 4, Num 4]),
         (''user_id'', [Num 7, Num 7]),
         (''user_username'', [Str ''u7'', Str ''u7'']),
         (''user_name'', [Str ''U'', Str ''U'']),
         (''user_location'', [Str ''GT'', Str ''GT'']),
         (''user_created_at'',
          [DateTime (datetime 2023 5 21 14 0), DateTime (datetime 2023 5 21 14 0)]),
         (''user_description'', [Str ''d'', Str ''d'']),
         (''user_profile_image_url'', [Str ''p'', Str ''p'']),
         (''user_verified'', [Flag False, Flag False]),
         (''user_followers_count'', [Num 10, Num 10]),
         (''user_following_count'', [Num 11, Num 11]),
         (''user_tweet_count'', [Num 12, Num 12]),
         (''user_listed_count'', [Num 13, Num 13])]\<rparr>"


text \<open>
  A world with nothing on disk, and three services whose state counts the requests: one
  answers every request with one tweet (numbered by the request) and its author, one
  raises at the third request, and one answers every request with the example response
  run through \<open>TwitterDataCleaner\<close>.
\<close>

definition empty_world :: "nat world" where
  "empty_world = \<lparr>service = 0, requests = [], logged = [], dirs = [], files = []\<rparr>"

definition counting_pipeline :: "nat pipeline" where
  "counting_pipeline req tp up n =
     (Inr (\<lparr>nrows = 1, columns = [(tp @ ''tweet'', [Num (int n)])]\<rparr>,
           \<lparr>nrows = 1, columns = [(up @ ''usuario'', [Num 7])]\<rparr>),
      Suc n)"

definition failing_pipeline :: "nat pipeline" where
  "failing_pipeline req tp up n =
     (if n = 2 then (Inl (Upstream ''TooManyRequests'' ''429''), Suc n)
      else counting_pipeline req tp up n)"


text \<open>What the two-day object gets from the counting service, and the world afterwards.\<close>

definition two_day_tweets :: dataframe where
  "two_day_tweets =
     \<lparr>nrows = 4,
      columns =
        [(''tw_tweet'', [Num 0, Num 1, Num 2, Num 3]),
         (''candidato'', [Str ''alice'', Str ''alice'', Str ''bob'', Str ''bob''])]\<rparr>"

definition two_day_users :: dataframe where
  "two_day_users = \<lparr>nrows = 4, columns = [(''us_usuario'', [Num 7, Num 7, Num 7, Num 7])]\<rparr>"

definition two_day_windows :: "(string \<times> string) list" where
  "two_day_windows =
     [(''2023-05-21T00:00:00Z'', ''2023-05-22T00:00:00Z''),
      (''2023-05-22T00:00:00Z'', ''2023-05-23T00:00:00Z'')]"

definition two_day_world :: "nat world" where
  "two_day_world =
     \<lparr>service = 4,
      requests =
        [TwitterRequest ''alice'' ''2023-05-21T00:00:00Z'' ''2023-05-22T00:00:00Z'' 10,
         TwitterRequest ''alice'' ''2023-05-22T00:00:00Z'' ''2023-05-23T00:00:00Z'' 10,
         TwitterRequest ''bob'' ''2023-05-21T00:00:00Z'' ''2023-05-22T00:00:00Z'' 10,
         TwitterRequest ''bob'' ''2023-05-22T00:00:00Z'' ''2023-05-23T00:00:00Z'' 10],
      logged =
        [INFO (DatesGenerated 2), INFO (BatchDownloaded 1 ''alice''),
         INFO (BatchDownloaded 1 ''alice''), INFO (BatchDownloaded 1 ''bob''),
         INFO (BatchDownloaded 1 ''bob''), INFO (TotalDownloaded 4 4)],
      dirs = [], files = []\<rparr>"

text \<open>
  The date pairs of the module, and the world in which the third request of \<open>main\<close>
  has raised.
\<close>

definition module_windows :: "(string \<times> string) list" where
  "module_windows =
     [(''2023-05-21T14:00:00Z'', ''2023-05-22T14:00:00Z''),
      (''2023-05-22T14:00:00Z'', ''2023-05-23T14:00:00Z''),
      (''2023-05-23T14:00:00Z'', ''2023-05-24T14:00:00Z''),
      (''2023-05-24T14:00:00Z'', ''2023-05-25T14:00:00Z''),
      (''2023-05-25T14:00:00Z'', ''2023-05-26T14:00:00Z''),
      (''2023-05-26T14:00:00Z'', ''2023-05-27T14:00:00Z'')]"

definition third_request_world :: "nat world" where
  "third_request_world =
     \<lparr>service = 3,
      requests =
        [TwitterRequest ''carlos pineda'' ''2023-05-21T14:00:00Z'' ''2023-05-22T14:00:00Z'' 10,
         TwitterRequest ''carlos pineda'' ''2023-05-22T14:00:00Z'' ''2023-05-23T14:00:00Z'' 10,
         TwitterRequest ''carlos pineda'' ''2023-05-23T14:00:00Z'' ''2023-05-24T14:00:00Z'' 10],
      logged =
        [INFO Initialized, INFO (DatesGenerated 6),
         INFO (BatchDownloaded 1 ''carlos pineda''),
         INFO (BatchDownloaded 1 ''carlos pineda'')],
      dirs = [], files = []\<rparr>"



section \<open>Window generation\<close>

lemma delta_pos: "0 < delta"
  by (simp add: delta_def timedelta_days_def us_per_day_def)

lemma dates_loop_unfold:
  assumes "\<forall>j<k. date + int j * delta < e"
    and "e \<le> date + int k * delta"
    and "0 \<le> date"
    and "date + int k * delta \<le> datetime_max"
  shows "dates_loop date e acc
           = Inr (acc @ map (\<lambda>i. date_pair (date + int i * delta)) [0..<k])"
  using assms
proof (induction k arbitrary: date acc)
  case 0
  then show ?case by (simp add: dates_loop.simps)
next
  case (Suc k)
  from Suc.prems(1) have lt: "date < e" by force
  have nxt: "datetime_add date delta = Inr (date + delta)"
  proof -
    have "date + delta \<le> date + int (Suc k) * delta"
      using delta_pos by (simp add: distrib_right)
    also have "\<dots> \<le> datetime_max" by (rule Suc.prems(4))
    finally have ub: "date + delta \<le> datetime_max" .
    have lb: "0 \<le> date + delta" using Suc.prems(3) delta_pos by simp
    from lb ub show ?thesis by (simp add: datetime_add_def)
  qed
  have a: "\<forall>j<k. (date + delta) + int j * delta < e"
  proof (intro allI impI)
    fix j assume "j < k"
    with Suc.prems(1) have "date + int (Suc j) * delta < e" by blast
    then show "(date + delta) + int j * delta < e"
      by (simp add: distrib_right add.assoc)
  qed
  have b: "e \<le> (date + delta) + int k * delta"
    using Suc.prems(2) by (simp add: distrib_right add.assoc)
  have c: "0 \<le> date + delta" using Suc.prems(3) delta_pos by simp
  have d: "(date + delta) + int k * delta \<le> datetime_max"
    using Suc.prems(4) by (simp add: distrib_right add.assoc)
  have shift: "map (\<lambda>i. date_pair (date + int i * delta)) [0..<Suc k]
      = date_pair date # map (\<lambda>i. date_pair ((date + delta) + int i * delta)) [0..<k]"
  proof -
    have "[0..<Suc k] = 0 # map Suc [0..<k]"
      by (simp add: upt_conv_Cons map_Suc_upt del: upt_Suc)
    then show ?thesis
      by (simp add: comp_def distrib_right add.assoc del: upt_Suc)
  qed
  have "dates_loop date e acc
          = dates_loop (date + delta) e (acc @ [date_pair date])"
    using lt nxt by (subst dates_loop.simps) (simp add: date_pair_def)
  also have "\<dots> = Inr ((acc @ [date_pair date])
                  @ map (\<lambda>i. date_pair ((date + delta) + int i * delta)) [0..<k])"
    by (rule Suc.IH [OF a b c d])
  finally show ?case by (simp only: shift append_assoc append_Cons append_Nil)
qed

lemma generate_dates_closed:
  assumes s: "start_date self = s" and e: "end_date self = e"
    and nonneg: "0 \<le> s" and lt: "s < e"
    and rep: "\<exists>m. e \<le> s + int m * delta \<and> s + int m * delta \<le> datetime_max"
  shows "\<exists>n>0. generate_dates self
                  = Inr (self\<lparr>dates := Some (map (\<lambda>i. date_pair (s + int i * delta)) [0..<n])\<rparr>)
               \<and> e \<le> s + int n * delta
               \<and> (\<forall>j<n. s + int j * delta < e)"
proof -
  from rep obtain m where m1: "e \<le> s + int m * delta" and m2: "s + int m * delta \<le> datetime_max"
    by blast
  define n where "n = (LEAST k. e \<le> s + int k * delta)"
  have n1: "e \<le> s + int n * delta"
    unfolding n_def by (rule LeastI [of "\<lambda>k. e \<le> s + int k * delta", OF m1])
  have n2: "\<forall>j<n. s + int j * delta < e"
  proof (intro allI impI)
    fix j assume "j < n"
    then have "\<not> e \<le> s + int j * delta"
      unfolding n_def by (rule not_less_Least)
    then show "s + int j * delta < e" by simp
  qed
  have "n \<le> m"
    unfolding n_def by (rule Least_le [of "\<lambda>k. e \<le> s + int k * delta", OF m1])
  then have "int n * delta \<le> int m * delta"
    using delta_pos by (simp add: mult_right_mono)
  with m2 have n3: "s + int n * delta \<le> datetime_max" by simp
  have n0: "0 < n"
  proof (rule ccontr)
    assume "\<not> 0 < n"
    then have "n = 0" by simp
    with n1 lt show False by simp
  qed
  have "dates_loop s e [] = Inr ([] @ map (\<lambda>i. date_pair (s + int i * delta)) [0..<n])"
    by (rule dates_loop_unfold [OF n2 n1 nonneg n3])
  then have "generate_dates self
      = Inr (self\<lparr>dates := Some (map (\<lambda>i. date_pair (s + int i * delta)) [0..<n])\<rparr>)"
    by (simp add: generate_dates_def s e)
  with n0 n1 n2 show ?thesis by blast
qed

text \<open>
  Claim C1, as amended. For a start before the end, when the first boundary at or after
  the end (reached from the start in steps of one day) is still a datetime,
  \<open>generate_dates\<close> stores a non-empty list of windows: window \<open>i\<close> renders
  the bounds \<open>start + i days\<close> and \<open>start + (i + 1) days\<close>, so the windows are ordered
  and do not overlap; the first one starts at the start, each one ends where the next one
  starts, and the last one ends at the first boundary that is not before the end, which is
  the end itself when the range is a whole number of days.
\<close>

theorem generate_dates_windows:
  assumes "start_date self = s" and "end_date self = e"
    and "0 \<le> s" and "s < e"
    and "\<exists>m. e \<le> s + int m * delta \<and> s + int m * delta \<le> datetime_max"
  shows "\<exists>ws n. generate_dates self = Inr (self\<lparr>dates := Some ws\<rparr>)
           \<and> 0 < n \<and> length ws = n
           \<and> (\<forall>i<n. ws ! i = (isoformat (s + int i * delta) @ ''Z'',
                                 isoformat (s + int (Suc i) * delta) @ ''Z''))
           \<and> fst (hd ws) = isoformat s @ ''Z''
           \<and> (\<forall>i. Suc i < n \<longrightarrow> snd (ws ! i) = fst (ws ! Suc i))
           \<and> snd (last ws) = isoformat (s + int n * delta) @ ''Z''
           \<and> e \<le> s + int n * delta
           \<and> (\<forall>j<n. s + int j * delta < e)
           \<and> (delta dvd e - s \<longrightarrow> s + int n * delta = e)"
proof -
  from generate_dates_closed [OF assms] obtain n where n0: "0 < n"
    and gen: "generate_dates self
                = Inr (self\<lparr>dates := Some (map (\<lambda>i. date_pair (s + int i * delta)) [0..<n])\<rparr>)"
    and n1: "e \<le> s + int n * delta"
    and n2: "\<forall>j<n. s + int j * delta < e"
    by blast
  define ws where "ws = map (\<lambda>i. date_pair (s + int i * delta)) [0..<n]"
  have len: "length ws = n" by (simp add: ws_def)
  have nth: "\<forall>i<n. ws ! i = (isoformat (s + int i * delta) @ ''Z'',
                              isoformat (s + int (Suc i) * delta) @ ''Z'')"
    by (simp add: ws_def date_pair_def algebra_simps)
  have first: "fst (hd ws) = isoformat s @ ''Z''"
    using n0 nth len by (cases ws) auto
  have contiguous: "\<forall>i. Suc i < n \<longrightarrow> snd (ws ! i) = fst (ws ! Suc i)"
    using nth by simp
  have final: "snd (last ws) = isoformat (s + int n * delta) @ ''Z''"
  proof -
    from n0 len have "ws \<noteq> []" by auto
    then have "last ws = ws ! (n - 1)" by (simp add: last_conv_nth len)
    moreover from n0 have "Suc (n - 1) = n" by simp
    ultimately show ?thesis using nth n0
      by (metis diff_less snd_conv zero_less_one)
  qed
  have even: "delta dvd e - s \<longrightarrow> s + int n * delta = e"
  proof
    assume "delta dvd e - s"
    then obtain q where q: "e - s = delta * q" by (auto simp: dvd_def)
    with \<open>s < e\<close> delta_pos have "0 < q"
      by (metis diff_gt_0_iff_gt zero_less_mult_pos)
    have "\<not> nat q < n"
    proof
      assume "nat q < n"
      with n2 have "s + int (nat q) * delta < e" by blast
      with \<open>0 < q\<close> q show False by (simp add: mult.commute)
    qed
    with \<open>0 < q\<close> have "int n \<le> q" by linarith
    then have "int n * delta \<le> q * delta"
      using delta_pos by (simp add: mult_right_mono)
    with q have "s + int n * delta \<le> e" by (simp add: mult.commute)
    with n1 show "s + int n * delta = e" by simp
  qed
  from gen n0 len nth first contiguous final n1 n2 even show ?thesis
    unfolding ws_def [symmetric] by blast
qed

lemma datetime_values:
  "datetime 2023 5 21 0 0 = 63820224000000000"
  "datetime 2023 5 23 0 0 = 63820396800000000"
  "datetime 2023 5 21 14 0 = 63820274400000000"
  "datetime 2023 5 27 13 0 = 63820789200000000"
  "datetime 9999 12 31 0 0 = 315537811200000000"
  "datetime 9999 12 31 12 0 = 315537854400000000"
  by (simp_all add: datetime_def ymd2ord_def days_before_year_def days_before_month_def
        DAYS_BEFORE_MONTH_def is_leap_def)

lemma delta_value: "delta = 86400000000"
  by (simp add: delta_def timedelta_days_def us_per_day_def)

lemma datetime_max_value: "datetime_max = 315537897599999999"
  by (simp add: datetime_max_def MAXORDINAL_def us_per_day_def)

theorem generate_dates_windows_witness:
  "start_date two_day_object = datetime 2023 5 21 0 0
   \<and> end_date two_day_object = datetime 2023 5 23 0 0
   \<and> 0 \<le> datetime 2023 5 21 0 0
   \<and> datetime 2023 5 21 0 0 < datetime 2023 5 23 0 0
   \<and> (\<exists>m. datetime 2023 5 23 0 0 \<le> datetime 2023 5 21 0 0 + int m * delta
            \<and> datetime 2023 5 21 0 0 + int m * delta \<le> datetime_max)
   \<and> (\<exists>ws n. generate_dates two_day_object = Inr (two_day_object\<lparr>dates := Some ws\<rparr>)
           \<and> 0 < n \<and> length ws = n
           \<and> (\<forall>i<n. ws ! i = (isoformat (datetime 2023 5 21 0 0 + int i * delta) @ ''Z'',
                                 isoformat (datetime 2023 5 21 0 0 + int (Suc i) * delta) @ ''Z''))
           \<and> fst (hd ws) = isoformat (datetime 2023 5 21 0 0) @ ''Z''
           \<and> (\<forall>i. Suc i < n \<longrightarrow> snd (ws ! i) = fst (ws ! Suc i))
           \<and> snd (last ws) = isoformat (datetime 2023 5 21 0 0 + int n * delta) @ ''Z''
           \<and> datetime 2023 5 23 0 0 \<le> datetime 2023 5 21 0 0 + int n * delta
           \<and> (\<forall>j<n. datetime 2023 5 21 0 0 + int j * delta < datetime 2023 5 23 0 0)
           \<and> (delta dvd datetime 2023 5 23 0 0 - datetime 2023 5 21 0 0
                \<longrightarrow> datetime 2023 5 21 0 0 + int n * delta = datetime 2023 5 23 0 0))"
proof -
  have h1: "start_date two_day_object = datetime 2023 5 21 0 0"
    by (simp add: two_day_object_def new_object_def)
  have h2: "end_date two_day_object = datetime 2023 5 23 0 0"
    by (simp add: two_day_object_def new_object_def)
  have h3: "0 \<le> datetime 2023 5 21 0 0"
    by (simp add: datetime_values)
  have h4: "datetime 2023 5 21 0 0 < datetime 2023 5 23 0 0"
    by (simp add: datetime_values)
  have h5: "\<exists>m. datetime 2023 5 23 0 0 \<le> datetime 2023 5 21 0 0 + int m * delta
              \<and> datetime 2023 5 21 0 0 + int m * delta \<le> datetime_max"
    by (rule exI [of _ 2]) (simp add: datetime_values delta_value datetime_max_value)
  from generate_dates_windows [OF h1 h2 h3 h4 h5] h1 h2 h3 h4 h5 show ?thesis
    by (intro conjI)
qed

text \<open>
  Claim C1 as stated (every start before the end) fails at the end of the range of
  \<open>datetime\<close>: from 9999-12-31T00:00 to 9999-12-31T12:00 the first addition of one day
  raises OverflowError and no window is returned.
\<close>

theorem generate_dates_overflow_counterexample:
  "valid_datetime (start_date last_day_object)
   \<and> valid_datetime (end_date last_day_object)
   \<and> start_date last_day_object < end_date last_day_object
   \<and> generate_dates last_day_object = Inl OverflowError"
  by (simp add: last_day_object_def new_object_def valid_datetime_def datetime_values
        datetime_max_value generate_dates_def dates_loop.simps datetime_add_def delta_value)

text \<open>
  Claim C4, as amended. When the range is not a whole number of days (and the first
  boundary after the end is still a datetime), the last window is emitted as a full
  one-day window: it starts before the end, and it ends after the end, by less than one
  day. No window is cut at the end of the range.
\<close>

theorem generate_dates_final_window:
  assumes "start_date self = s" and "end_date self = e"
    and "0 \<le> s" and "s < e"
    and "\<exists>m. e \<le> s + int m * delta \<and> s + int m * delta \<le> datetime_max"
    and "\<not> delta dvd e - s"
  shows "\<exists>ws n. generate_dates self = Inr (self\<lparr>dates := Some ws\<rparr>)
           \<and> 0 < n \<and> length ws = n
           \<and> last ws = (isoformat (s + int (n - 1) * delta) @ ''Z'',
                        isoformat (s + int (n - 1) * delta + delta) @ ''Z'')
           \<and> s + int (n - 1) * delta < e
           \<and> e < s + int (n - 1) * delta + delta"
proof -
  from generate_dates_closed [OF assms(1-5)] obtain n where n0: "0 < n"
    and gen: "generate_dates self
                = Inr (self\<lparr>dates := Some (map (\<lambda>i. date_pair (s + int i * delta)) [0..<n])\<rparr>)"
    and n1: "e \<le> s + int n * delta"
    and n2: "\<forall>j<n. s + int j * delta < e"
    by blast
  define ws where "ws = map (\<lambda>i. date_pair (s + int i * delta)) [0..<n]"
  have len: "length ws = n" by (simp add: ws_def)
  from n0 have ne: "[0..<n] \<noteq> []" by simp
  have "last ws = date_pair (s + int (last [0..<n]) * delta)"
    unfolding ws_def using ne by (simp add: last_map)
  moreover from n0 have "last [0..<n] = n - 1"
    by (cases n) simp_all
  ultimately have lst: "last ws = (isoformat (s + int (n - 1) * delta) @ ''Z'',
                                   isoformat (s + int (n - 1) * delta + delta) @ ''Z'')"
    by (simp add: date_pair_def)
  from n0 have "n - 1 < n" by simp
  with n2 have before: "s + int (n - 1) * delta < e" by blast
  from n0 have split: "s + int (n - 1) * delta + delta = s + int n * delta"
    by (simp add: of_nat_diff algebra_simps)
  have "e \<noteq> s + int n * delta"
  proof
    assume "e = s + int n * delta"
    then have "e - s = delta * int n" by simp
    then have "delta dvd e - s" by (simp only: dvd_triv_left)
    with assms(6) show False by simp
  qed
  with n1 have after: "e < s + int (n - 1) * delta + delta"
    unfolding split by simp
  from gen n0 len lst before after show ?thesis
    unfolding ws_def [symmetric] by blast
qed

theorem generate_dates_final_window_witness:
  "start_date module_object = datetime 2023 5 21 14 0
   \<and> end_date module_object = datetime 2023 5 27 13 0
   \<and> 0 \<le> datetime 2023 5 21 14 0
   \<and> datetime 2023 5 21 14 0 < datetime 2023 5 27 13 0
   \<and> (\<exists>m. datetime 2023 5 27 13 0 \<le> datetime 2023 5 21 14 0 + int m * delta
            \<and> datetime 2023 5 21 14 0 + int m * delta \<le> datetime_max)
   \<and> \<not> delta dvd datetime 2023 5 27 13 0 - datetime 2023 5 21 14 0
   \<and> (\<exists>ws n. generate_dates module_object = Inr (module_object\<lparr>dates := Some ws\<rparr>)
           \<and> 0 < n \<and> length ws = n
           \<and> last ws = (isoformat (datetime 2023 5 21 14 0 + int (n - 1) * delta) @ ''Z'',
                        isoformat (datetime 2023 5 21 14 0 + int (n - 1) * delta + delta) @ ''Z'')
           \<and> datetime 2023 5 21 14 0 + int (n - 1) * delta < datetime 2023 5 27 13 0
           \<and> datetime 2023 5 27 13 0 < datetime 2023 5 21 14 0 + int (n - 1) * delta + delta)"
proof -
  have h1: "start_date module_object = datetime 2023 5 21 14 0"
    by (simp add: module_object_def new_object_def module_start_date_def)
  have h2: "end_date module_object = datetime 2023 5 27 13 0"
    by (simp add: module_object_def new_object_def module_end_date_def)
  have h3: "0 \<le> datetime 2023 5 21 14 0"
    by (simp add: datetime_values)
  have h4: "datetime 2023 5 21 14 0 < datetime 2023 5 27 13 0"
    by (simp add: datetime_values)
  have h5: "\<exists>m. datetime 2023 5 27 13 0 \<le> datetime 2023 5 21 14 0 + int m * delta
              \<and> datetime 2023 5 21 14 0 + int m * delta \<le> datetime_max"
    by (rule exI [of _ 6]) (simp add: datetime_values delta_value datetime_max_value)
  have h6: "\<not> delta dvd datetime 2023 5 27 13 0 - datetime 2023 5 21 14 0"
    by (simp add: datetime_values delta_value)
  from generate_dates_final_window [OF h1 h2 h3 h4 h5 h6] h1 h2 h3 h4 h5 h6 show ?thesis
    by (intro conjI)
qed

lemma zfill_numeral:
  "zfill (numeral k) n = zfill (pred_numeral k) (n div 10) @ [''0123456789'' ! (n mod 10)]"
  by (subst numeral_eq_Suc) (rule zfill.simps)

lemmas isoformat_eval =
  isoformat_def ord2ymd_def us_per_day_def DAYS_BEFORE_MONTH_def DAYS_IN_MONTH_def Let_def
  zfill_numeral

lemma isoformat_values:
  "isoformat 63820274400000000 = ''2023-05-21T14:00:00''"
  "isoformat 63820360800000000 = ''2023-05-22T14:00:00''"
  "isoformat 63820447200000000 = ''2023-05-23T14:00:00''"
  "isoformat 63820533600000000 = ''2023-05-24T14:00:00''"
  "isoformat 63820620000000000 = ''2023-05-25T14:00:00''"
  "isoformat 63820706400000000 = ''2023-05-26T14:00:00''"
  "isoformat 63820792800000000 = ''2023-05-27T14:00:00''"
  "isoformat 63820789200000000 = ''2023-05-27T13:00:00''"
  by (simp_all add: isoformat_eval)

lemma module_dates:
  "dates_loop 63820274400000000 63820789200000000 [] =
     Inr [(''2023-05-21T14:00:00Z'', ''2023-05-22T14:00:00Z''),
          (''2023-05-22T14:00:00Z'', ''2023-05-23T14:00:00Z''),
          (''2023-05-23T14:00:00Z'', ''2023-05-24T14:00:00Z''),
          (''2023-05-24T14:00:00Z'', ''2023-05-25T14:00:00Z''),
          (''2023-05-25T14:00:00Z'', ''2023-05-26T14:00:00Z''),
          (''2023-05-26T14:00:00Z'', ''2023-05-27T14:00:00Z'')]"
proof -
  have "dates_loop 63820274400000000 63820789200000000 []
          = Inr ([] @ map (\<lambda>i. date_pair (63820274400000000 + int i * delta)) [0..<6])"
  proof (rule dates_loop_unfold)
    show "\<forall>j<6. 63820274400000000 + int j * delta < 63820789200000000"
    proof (intro allI impI)
      fix j :: nat assume "j < 6"
      then have "int j \<le> 5" by simp
      then have "int j * 86400000000 \<le> 5 * 86400000000"
        by (rule mult_right_mono) simp
      then show "63820274400000000 + int j * delta < 63820789200000000"
        by (simp add: delta_value)
    qed
  qed (simp_all add: delta_value datetime_max_value)
  also have "[0..<6] = [0, 1, 2, 3, 4, 5]"
    by (simp add: upt_rec)
  finally show ?thesis
    by (simp add: date_pair_def delta_value isoformat_values)
qed

text \<open>
  Claim C4 as stated fails for the dates of the module itself: from 2023-05-21T14:00 to
  2023-05-27T13:00 the range is not a whole number of days, and the sixth and last window
  ends at 2023-05-27T14:00, one hour after the end of the range.
\<close>

theorem generate_dates_partial_window_counterexample:
  "start_date module_object < end_date module_object
   \<and> \<not> delta dvd end_date module_object - start_date module_object
   \<and> generate_dates module_object
       = Inr (module_object\<lparr>dates := Some
               [(''2023-05-21T14:00:00Z'', ''2023-05-22T14:00:00Z''),
                (''2023-05-22T14:00:00Z'', ''2023-05-23T14:00:00Z''),
                (''2023-05-23T14:00:00Z'', ''2023-05-24T14:00:00Z''),
                (''2023-05-24T14:00:00Z'', ''2023-05-25T14:00:00Z''),
                (''2023-05-25T14:00:00Z'', ''2023-05-26T14:00:00Z''),
                (''2023-05-26T14:00:00Z'', ''2023-05-27T14:00:00Z'')]\<rparr>)
   \<and> isoformat (end_date module_object) @ ''Z'' = ''2023-05-27T13:00:00Z''
   \<and> isoformat (end_date module_object + 3600000000) @ ''Z'' = ''2023-05-27T14:00:00Z''"
  by (simp add: module_object_def new_object_def module_start_date_def module_end_date_def
        datetime_values delta_value generate_dates_def module_dates isoformat_values)

section \<open>The normalizer\<close>

lemma map_raise_length: "map_raise f xs = Inr ys \<Longrightarrow> length ys = length xs"
  by (induction xs arbitrary: ys) (auto split: sum.splits)


lemma map_of_map_key:
  "map_of (map (\<lambda>n. (n, f n)) ns) k = (if k \<in> set ns then Some (f k) else None)"
  by (induction ns) auto

lemma set_dict_set: "set (dict_set d k v) \<subseteq> insert (k, v) (set d)"
  by (induction d k v rule: dict_set.induct) auto

lemma wf_DataFrame: "wf_frame (DataFrame records)" "nrows (DataFrame records) = length records"
  by (auto simp: wf_frame_def DataFrame_def)

lemma wf_setitem:
  "wf_frame df \<Longrightarrow> length vs = nrows df \<Longrightarrow> wf_frame (setitem df c vs)"
  using set_dict_set [of "columns df" c vs]
  by (auto simp: wf_frame_def setitem_def)

lemma nrows_setitem: "nrows (setitem df c vs) = nrows df"
  by (simp add: setitem_def)

lemma getitem_length:
  "wf_frame df \<Longrightarrow> getitem df c = Inr vs \<Longrightarrow> length vs = nrows df"
  by (auto simp: wf_frame_def getitem_def split: option.splits dest!: map_of_SomeD)

lemma user_columns_loop_wf:
  "wf_frame df \<Longrightarrow> user_columns_loop cols df = Inr df' \<Longrightarrow> wf_frame df' \<and> nrows df' = nrows df"
proof (induction cols arbitrary: df)
  case Nil
  then show ?case by simp
next
  case (Cons col rest)
  from Cons.prems(2) obtain series vs where
    s: "getitem df ''user_data'' = Inr series" and
    v: "map_raise (cell_get col) series = Inr vs" and
    r: "user_columns_loop rest (setitem df col vs) = Inr df'"
    by (auto split: sum.splits)
  from getitem_length [OF Cons.prems(1) s] map_raise_length [OF v]
  have "length vs = nrows df" by simp
  with Cons.prems(1) have "wf_frame (setitem df col vs)" by (rule wf_setitem)
  from Cons.IH [OF this r] show ?case by (simp add: nrows_setitem)
qed

lemma drop_column_wf:
  "wf_frame df \<Longrightarrow> drop_column df c = Inr df' \<Longrightarrow> wf_frame df' \<and> nrows df' = nrows df"
  by (fastforce simp: drop_column_def wf_frame_def split: if_splits)

lemma extract_user_data_wf:
  assumes "wf_frame df" and "extract_user_data resp df = Inr df'"
  shows "wf_frame df' \<and> nrows df' = nrows df"
proof -
  from assms(2) obtain users_dict author_ids user_data_col df1 where
    a: "getitem df ''author_id'' = Inr author_ids" and
    u: "map_raise (\<lambda>x. case map_of users_dict x of
                          None \<Rightarrow> Inl (KeyError x)
                        | Some user_data \<Rightarrow> Inr (Dict user_data)) author_ids = Inr user_data_col" and
    l: "user_columns_loop (json_normalize_columns user_data_col)
          (setitem df ''user_data'' user_data_col) = Inr df1" and
    d: "drop_column df1 ''user_data'' = Inr df'"
    by (auto simp: extract_user_data_def split: sum.splits)
  from getitem_length [OF assms(1) a] map_raise_length [OF u]
  have "length user_data_col = nrows df" by simp
  with assms(1) have "wf_frame (setitem df ''user_data'' user_data_col)" by (rule wf_setitem)
  from user_columns_loop_wf [OF this l] have "wf_frame df1" "nrows df1 = nrows df"
    by (simp_all add: nrows_setitem)
  with drop_column_wf [OF _ d] show ?thesis by simp
qed

lemma select_Inr:
  assumes "select df names = Inr t"
  shows "nrows t = nrows df"
    and "columns t = map (\<lambda>n. (n, column_or_nan n df)) names"
    and "\<forall>n\<in>set names. map_of (columns df) n \<noteq> None"
proof -
  from assms have none: "filter (\<lambda>n. map_of (columns df) n = None) names = []"
    and t: "t = df\<lparr>columns := map (\<lambda>n. (n, case map_of (columns df) n of None \<Rightarrow> [] | Some vs \<Rightarrow> vs)) names\<rparr>"
    by (auto simp: select_def Let_def split: if_splits)
  from none show p: "\<forall>n\<in>set names. map_of (columns df) n \<noteq> None"
    by (simp add: filter_empty_conv)
  from t show "nrows t = nrows df" by simp
  from t p show "columns t = map (\<lambda>n. (n, column_or_nan n df)) names"
    by (auto simp: column_or_nan_def split: option.splits)
qed

lemma select_wf:
  assumes "wf_frame df" and "select df names = Inr t"
  shows "wf_frame t"
proof -
  have "length (column_or_nan n df) = nrows df" for n
    using assms(1)
    by (auto simp: column_or_nan_def wf_frame_def split: option.splits dest!: map_of_SomeD)
  then show ?thesis
    by (auto simp: wf_frame_def select_Inr(1,2) [OF assms(2)])
qed

lemma rename_wf: "wf_frame df \<Longrightarrow> wf_frame (rename df m)"
  by (auto simp: wf_frame_def rename_def)

lemma nrows_rename: "nrows (rename df m) = nrows df"
  by (simp add: rename_def)

lemma assign_date_wf:
  assumes "wf_frame df" and "assign df c (date_column c') = Inr df'"
  shows "wf_frame df' \<and> nrows df' = nrows df"
proof -
  from assms(2) obtain vs0 vs where
    g: "map_of (columns df) c' = Some vs0" and
    m: "map_raise to_date vs0 = Inr vs" and
    d: "df' = setitem df c vs"
    by (auto simp: assign_def date_column_def split: sum.splits option.splits)
  from g assms(1) have "length vs0 = nrows df"
    by (auto simp: wf_frame_def dest!: map_of_SomeD)
  with map_raise_length [OF m] have "length vs = nrows df" by simp
  with assms(1) d show ?thesis by (simp add: wf_setitem nrows_setitem)
qed

lemma clean_data_wf:
  assumes "wf_frame (fst frames)" and "wf_frame (snd frames)"
    and "clean_data frames = Inr (tws, usrs)"
  shows "wf_frame tws \<and> nrows tws = nrows (fst frames)
         \<and> wf_frame usrs \<and> nrows usrs = nrows (snd frames)"
proof -
  from assms(3) have
    t: "assign (rename (fst frames) (tweets_mapping ''tw_'')) ''tw_fecha''
          (date_column ''tw_fecha'') = Inr tws" and
    u: "assign (rename (snd frames) (users_mapping ''us_'')) ''us_fecha_creacion''
          (date_column ''us_fecha_creacion'') = Inr usrs"
    by (auto simp: clean_data_def split: sum.splits)
  from assign_date_wf [OF rename_wf [OF assms(1)] t] assign_date_wf [OF rename_wf [OF assms(2)] u]
  show ?thesis by (simp add: nrows_rename)
qed

lemma segregate_data_wf:
  assumes "wf_frame df" and "segregate_data df = Inr (t, u)"
  shows "wf_frame t \<and> nrows t = nrows df \<and> wf_frame u \<and> nrows u = nrows df"
proof -
  from assms(2) have t: "select df tweet_columns = Inr t" and u: "select df user_columns = Inr u"
    by (auto simp: segregate_data_def split: sum.splits)
  from select_wf [OF assms(1) t] select_wf [OF assms(1) u] select_Inr(1) [OF t] select_Inr(1) [OF u]
  show ?thesis by simp
qed

text \<open>
  Claim C8. When the normalization of one response succeeds, the authors table has one
  row per tweet of the response, and so has the tweets table: both have as many rows
  as the response has tweets, and every column of both has that many cells. Authors are
  not merged: two tweets of one author give two author rows.
\<close>

theorem run_row_counts:
  assumes "run resp = Inr (tws, usrs)"
  shows "\<exists>ts. response_data resp = Some ts
           \<and> nrows tws = length ts \<and> nrows usrs = length ts
           \<and> (\<forall>c\<in>set (columns tws). length (snd c) = length ts)
           \<and> (\<forall>c\<in>set (columns usrs). length (snd c) = length ts)"
proof -
  from assms obtain df df' frames where
    e: "extract_tweet_data resp = Inr df" and
    x: "extract_user_data resp df = Inr df'" and
    s: "segregate_data df' = Inr frames" and
    c: "clean_data frames = Inr (tws, usrs)"
    by (auto simp: run_def split: sum.splits)
  from e obtain ts tweet_data where ts: "response_data resp = Some ts"
    and td: "map_raise tweet_record ts = Inr tweet_data" and df: "df = DataFrame tweet_data"
    by (auto simp: extract_tweet_data_def split: option.splits sum.splits)
  from df have "wf_frame df" "nrows df = length tweet_data" by (simp_all add: wf_DataFrame)
  with map_raise_length [OF td] have w0: "wf_frame df" and n0: "nrows df = length ts" by simp_all
  from extract_user_data_wf [OF w0 x] n0 have w1: "wf_frame df'" and n1: "nrows df' = length ts"
    by simp_all
  obtain t u where fr: "frames = (t, u)" by (cases frames)
  from segregate_data_wf [OF w1 s [unfolded fr]] n1
  have "wf_frame t" "nrows t = length ts" "wf_frame u" "nrows u = length ts" by simp_all
  with clean_data_wf [of frames tws usrs] c fr
  have "wf_frame tws" "nrows tws = length ts" "wf_frame usrs" "nrows usrs = length ts"
    by simp_all
  with ts show ?thesis by (auto simp: wf_frame_def)
qed

lemma run_example:
  "run example_response = Inr (example_tweets_frame, example_users_frame)"
  by code_simp

theorem run_row_counts_witness:
  "run example_response = Inr (example_tweets_frame, example_users_frame)
   \<and> (\<exists>ts. response_data example_response = Some ts
          \<and> nrows example_tweets_frame = length ts
          \<and> nrows example_users_frame = length ts
          \<and> (\<forall>c\<in>set (columns example_tweets_frame). length (snd c) = length ts)
          \<and> (\<forall>c\<in>set (columns example_users_frame). length (snd c) = length ts))"
  using run_row_counts [OF run_example] run_example by (intro conjI)


lemma segregate_data_columns:
  assumes "segregate_data df = Inr (t, u)"
  shows "columns t = map (\<lambda>n. (n, column_or_nan n df)) tweet_columns"
    and "columns u = map (\<lambda>n. (n, column_or_nan n df)) user_columns"
    and "nrows t = nrows df" and "nrows u = nrows df"
    and "\<forall>n\<in>set tweet_columns \<union> set user_columns. map_of (columns df) n \<noteq> None"
proof -
  from assms have t: "select df tweet_columns = Inr t" and u: "select df user_columns = Inr u"
    by (auto simp: segregate_data_def split: sum.splits)
  from select_Inr [OF t] select_Inr [OF u]
  show "columns t = map (\<lambda>n. (n, column_or_nan n df)) tweet_columns"
    and "columns u = map (\<lambda>n. (n, column_or_nan n df)) user_columns"
    and "nrows t = nrows df" and "nrows u = nrows df"
    and "\<forall>n\<in>set tweet_columns \<union> set user_columns. map_of (columns df) n \<noteq> None"
    by auto
qed

lemma rename_tweets:
  "columns t = map (\<lambda>n. (n, f n)) tweet_columns \<Longrightarrow>
   columns (rename t (tweets_mapping ''tw_''))
     = [(''tw_tweet'', f ''id''), (''tw_usuario'', f ''author_id''),
        (''tw_fecha'', f ''created_at''), (''tw_texto'', f ''text''),
        (''tw_sensitivo'', f ''possibly_sensitive''), (''tw_retweets'', f ''retweet_count''),
        (''tw_replies'', f ''reply_count''), (''tw_likes'', f ''like_count''),
        (''tw_quotes'', f ''quote_count''), (''tw_impresiones'', f ''impression_count''),
        (''tw_idioma'', f ''lang'')]"
  by (simp add: rename_def tweet_columns_def tweets_mapping_def)

lemma rename_users:
  "columns u = map (\<lambda>n. (n, f n)) user_columns \<Longrightarrow>
   columns (rename u (users_mapping ''us_''))
     = [(''us_usuario'', f ''user_id''), (''us_handle'', f ''user_username''),
        (''us_nombre'', f ''user_name''), (''us_ubicacion'', f ''user_location''),
        (''us_fecha_creacion'', f ''user_created_at''),
        (''us_descripcion'', f ''user_description''),
        (''us_imagen'', f ''user_profile_image_url''), (''us_verificado'', f ''user_verified''),
        (''us_seguidores'', f ''user_followers_count''),
        (''us_siguiendo'', f ''user_following_count''), (''us_tweets'', f ''user_tweet_count''),
        (''us_listas'', f ''user_listed_count'')]"
  by (simp add: rename_def user_columns_def users_mapping_def)


lemma clean_data_shape:
  assumes seg: "segregate_data df = Inr (t, u)" and cl: "clean_data (t, u) = Inr (tws, usrs)"
  shows "\<exists>fechas ufechas.
           map_raise to_date (column_or_nan ''created_at'' df) = Inr fechas
         \<and> map_raise to_date (column_or_nan ''user_created_at'' df) = Inr ufechas
         \<and> columns tws =
             [(''tw_tweet'', column_or_nan ''id'' df),
              (''tw_usuario'', column_or_nan ''author_id'' df),
              (''tw_fecha'', fechas),
              (''tw_texto'', column_or_nan ''text'' df),
              (''tw_sensitivo'', column_or_nan ''possibly_sensitive'' df),
              (''tw_retweets'', column_or_nan ''retweet_count'' df),
              (''tw_replies'', column_or_nan ''reply_count'' df),
              (''tw_likes'', column_or_nan ''like_count'' df),
              (''tw_quotes'', column_or_nan ''quote_count'' df),
              (''tw_impresiones'', column_or_nan ''impression_count'' df),
              (''tw_idioma'', column_or_nan ''lang'' df)]
         \<and> columns usrs =
             [(''us_usuario'', column_or_nan ''user_id'' df),
              (''us_handle'', column_or_nan ''user_username'' df),
              (''us_nombre'', column_or_nan ''user_name'' df),
              (''us_ubicacion'', column_or_nan ''user_location'' df),
              (''us_fecha_creacion'', ufechas),
              (''us_descripcion'', column_or_nan ''user_description'' df),
              (''us_imagen'', column_or_nan ''user_profile_image_url'' df),
              (''us_verificado'', column_or_nan ''user_verified'' df),
              (''us_seguidores'', column_or_nan ''user_followers_count'' df),
              (''us_siguiendo'', column_or_nan ''user_following_count'' df),
              (''us_tweets'', column_or_nan ''user_tweet_count'' df),
              (''us_listas'', column_or_nan ''user_listed_count'' df)]"
proof -
  note ct = rename_tweets [OF segregate_data_columns(1) [OF seg]]
  note cu = rename_users [OF segregate_data_columns(2) [OF seg]]
  from cl obtain fechas where
    f: "date_column ''tw_fecha'' (rename t (tweets_mapping ''tw_'')) = Inr fechas" and
    tws: "tws = setitem (rename t (tweets_mapping ''tw_'')) ''tw_fecha'' fechas"
    by (auto simp: clean_data_def assign_def split: sum.splits)
  from cl obtain ufechas where
    uf: "date_column ''us_fecha_creacion'' (rename u (users_mapping ''us_'')) = Inr ufechas" and
    usrs: "usrs = setitem (rename u (users_mapping ''us_'')) ''us_fecha_creacion'' ufechas"
    by (auto simp: clean_data_def assign_def split: sum.splits)
  from f have 1: "map_raise to_date (column_or_nan ''created_at'' df) = Inr fechas"
    by (simp add: date_column_def ct)
  from uf have 2: "map_raise to_date (column_or_nan ''user_created_at'' df) = Inr ufechas"
    by (simp add: date_column_def cu)
  from tws have 3: "columns tws = dict_set (columns (rename t (tweets_mapping ''tw_''))) ''tw_fecha'' fechas"
    by (simp add: setitem_def)
  from usrs have 4: "columns usrs = dict_set (columns (rename u (users_mapping ''us_''))) ''us_fecha_creacion'' ufechas"
    by (simp add: setitem_def)
  from 1 2 3 4 show ?thesis
    unfolding ct cu by simp
qed


lemma enriched_example:
  "(case extract_tweet_data example_response of
      Inl e \<Rightarrow> Inl e | Inr df \<Rightarrow> extract_user_data example_response df)
     = Inr example_enriched_frame"
  by code_simp

lemma segregate_clean_example:
  "(case segregate_data example_enriched_frame of
      Inl e \<Rightarrow> Inl e | Inr frames \<Rightarrow> clean_data frames)
     = Inr (example_tweets_frame, example_users_frame)"
  by code_simp

text \<open>
  Claim C5, as amended. \<open>clean_data\<close> takes no prefix: whatever the collector is
  configured with, the tweets table that it returns has exactly the eleven columns
  \<open>tw_tweet\<close>, ..., \<open>tw_idioma\<close> and the users table exactly the twelve columns
  \<open>us_usuario\<close>, ..., \<open>us_listas\<close>, in this order, and none of the labels before
  the renaming is left.
\<close>

theorem clean_data_columns:
  assumes "(case segregate_data df of Inl e \<Rightarrow> Inl e | Inr frames \<Rightarrow> clean_data frames)
             = Inr (tws, usrs)"
  shows "column_names tws
           = map ((@) ''tw_'')
               [''tweet'', ''usuario'', ''fecha'', ''texto'', ''sensitivo'', ''retweets'',
                ''replies'', ''likes'', ''quotes'', ''impresiones'', ''idioma'']
         \<and> column_names usrs
           = map ((@) ''us_'')
               [''usuario'', ''handle'', ''nombre'', ''ubicacion'', ''fecha_creacion'',
                ''descripcion'', ''imagen'', ''verificado'', ''seguidores'', ''siguiendo'',
                ''tweets'', ''listas'']
         \<and> set (column_names tws) \<inter> set tweet_columns = {}
         \<and> set (column_names usrs) \<inter> set user_columns = {}"
proof -
  from assms obtain t u where seg: "segregate_data df = Inr (t, u)"
    and cl: "clean_data (t, u) = Inr (tws, usrs)"
    by (auto split: sum.splits)
  from clean_data_shape [OF seg cl] obtain fechas ufechas where
    ct: "columns tws =
             [(''tw_tweet'', column_or_nan ''id'' df),
              (''tw_usuario'', column_or_nan ''author_id'' df),
              (''tw_fecha'', fechas),
              (''tw_texto'', column_or_nan ''text'' df),
              (''tw_sensitivo'', column_or_nan ''possibly_sensitive'' df),
              (''tw_retweets'', column_or_nan ''retweet_count'' df),
              (''tw_replies'', column_or_nan ''reply_count'' df),
              (''tw_likes'', column_or_nan ''like_count'' df),
              (''tw_quotes'', column_or_nan ''quote_count'' df),
              (''tw_impresiones'', column_or_nan ''impression_count'' df),
              (''tw_idioma'', column_or_nan ''lang'' df)]" and
    cu: "columns usrs =
             [(''us_usuario'', column_or_nan ''user_id'' df),
              (''us_handle'', column_or_nan ''user_username'' df),
              (''us_nombre'', column_or_nan ''user_name'' df),
              (''us_ubicacion'', column_or_nan ''user_location'' df),
              (''us_fecha_creacion'', ufechas),
              (''us_descripcion'', column_or_nan ''user_description'' df),
              (''us_imagen'', column_or_nan ''user_profile_image_url'' df),
              (''us_verificado'', column_or_nan ''user_verified'' df),
              (''us_seguidores'', column_or_nan ''user_followers_count'' df),
              (''us_siguiendo'', column_or_nan ''user_following_count'' df),
              (''us_tweets'', column_or_nan ''user_tweet_count'' df),
              (''us_listas'', column_or_nan ''user_listed_count'' df)]"
    by blast
  have 1: "column_names tws
           = map ((@) ''tw_'')
               [''tweet'', ''usuario'', ''fecha'', ''texto'', ''sensitivo'', ''retweets'',
                ''replies'', ''likes'', ''quotes'', ''impresiones'', ''idioma'']"
    by (simp add: column_names_def ct)
  have 2: "column_names usrs
           = map ((@) ''us_'')
               [''usuario'', ''handle'', ''nombre'', ''ubicacion'', ''fecha_creacion'',
                ''descripcion'', ''imagen'', ''verificado'', ''seguidores'', ''siguiendo'',
                ''tweets'', ''listas'']"
    by (simp add: column_names_def cu)
  have 3: "set (column_names tws) \<inter> set tweet_columns = {}"
    by (simp add: column_names_def ct tweet_columns_def)
  have 4: "set (column_names usrs) \<inter> set user_columns = {}"
    by (simp add: column_names_def cu user_columns_def)
  from 1 2 3 4 show ?thesis by (intro conjI)
qed

theorem clean_data_columns_witness:
  "(case segregate_data example_enriched_frame of
      Inl e \<Rightarrow> Inl e | Inr frames \<Rightarrow> clean_data frames)
     = Inr (example_tweets_frame, example_users_frame)
   \<and> column_names example_tweets_frame
           = map ((@) ''tw_'')
               [''tweet'', ''usuario'', ''fecha'', ''texto'', ''sensitivo'', ''retweets'',
                ''replies'', ''likes'', ''quotes'', ''impresiones'', ''idioma'']
   \<and> column_names example_users_frame
           = map ((@) ''us_'')
               [''usuario'', ''handle'', ''nombre'', ''ubicacion'', ''fecha_creacion'',
                ''descripcion'', ''imagen'', ''verificado'', ''seguidores'', ''siguiendo'',
                ''tweets'', ''listas'']
   \<and> set (column_names example_tweets_frame) \<inter> set tweet_columns = {}
   \<and> set (column_names example_users_frame) \<inter> set user_columns = {}"
  using clean_data_columns [OF segregate_clean_example] segregate_clean_example
  by blast

text \<open>
  Claim C5 as stated (for every choice of the two prefixes) fails: for the prefixes
  \<open>post_\<close> and \<open>author_\<close> the columns would have to be \<open>post_tweet\<close>, ... and
  \<open>author_usuario\<close>, ..., and they are \<open>tw_tweet\<close>, ... and \<open>us_usuario\<close>, ...
\<close>

theorem clean_data_prefix_counterexample:
  "(case segregate_data example_enriched_frame of
      Inl e \<Rightarrow> Inl e | Inr frames \<Rightarrow> clean_data frames)
     = Inr (example_tweets_frame, example_users_frame)
   \<and> column_names example_tweets_frame
       \<noteq> map ((@) ''post_'')
               [''tweet'', ''usuario'', ''fecha'', ''texto'', ''sensitivo'', ''retweets'',
                ''replies'', ''likes'', ''quotes'', ''impresiones'', ''idioma'']
   \<and> column_names example_users_frame
       \<noteq> map ((@) ''author_'')
               [''usuario'', ''handle'', ''nombre'', ''ubicacion'', ''fecha_creacion'',
                ''descripcion'', ''imagen'', ''verificado'', ''seguidores'', ''siguiendo'',
                ''tweets'', ''listas'']"
  by (simp add: segregate_clean_example column_names_def example_tweets_frame_def
        example_users_frame_def)






lemma map_raise_Inr_all:
  "map_raise f xs = Inr ys \<Longrightarrow> \<forall>x\<in>set xs. \<exists>y. f x = Inr y"
  by (induction xs arbitrary: ys) (auto split: sum.splits)


lemma keys_dict_set: "fst ` set (dict_set d k v) = insert k (fst ` set d)"
  by (induction d k v rule: dict_set.induct) auto










section \<open>The collector\<close>

subsection \<open>Stacking frames\<close>

lemma remdups_absorb: "remdups (remdups xs @ ys) = remdups (xs @ ys)"
  by (induction xs) auto

lemma remdups_absorb_mid: "remdups (xs @ remdups ys @ zs) = remdups (xs @ ys @ zs)"
  by (induction xs) (auto simp: remdups_absorb)

lemma unique_mid: "unique (xs @ unique ys @ zs) = unique (xs @ ys @ zs)"
proof -
  have "remdups (rev zs @ remdups (rev ys) @ rev xs) = remdups (rev zs @ rev ys @ rev xs)"
    by (rule remdups_absorb_mid)
  then show ?thesis by (simp add: unique_def)
qed

lemma set_unique: "set (unique xs) = set xs"
  by (simp add: unique_def)




lemma nrows_stack: "nrows (stack dfs) = sum_list (map nrows dfs)"
  by (simp add: stack_def)

lemma column_names_stack: "column_names (stack dfs) = unique (concat (map column_names dfs))"
  by (simp add: stack_def column_names_def comp_def)

lemma concat_replicate:
  "concat (map (\<lambda>df. replicate (nrows df) v) dfs) = replicate (sum_list (map nrows dfs)) v"
  by (induction dfs) (simp_all add: replicate_add)

lemma map_of_stack:
  "map_of (columns (stack dfs)) n =
     (if n \<in> set (concat (map column_names dfs))
      then Some (concat (map (column_or_nan n) dfs)) else None)"
  by (simp add: stack_def map_of_map_key set_unique del: set_concat)

lemma column_or_nan_stack:
  "column_or_nan n (stack dfs) = concat (map (column_or_nan n) dfs)"
proof -
  have unfold: "column_or_nan n (stack dfs) =
      (case map_of (columns (stack dfs)) n of
         None \<Rightarrow> replicate (nrows (stack dfs)) NaN | Some vs \<Rightarrow> vs)"
    by (simp only: column_or_nan_def)
  show ?thesis
  proof (cases "n \<in> set (concat (map column_names dfs))")
    case True
    then show ?thesis unfolding unfold by (simp only: map_of_stack if_True option.case)
  next
    case False
    then have "\<forall>df\<in>set dfs. map_of (columns df) n = None"
      by (auto simp: column_names_def map_of_eq_None_iff)
    then have "map (column_or_nan n) dfs = map (\<lambda>df. replicate (nrows df) NaN) dfs"
      by (simp add: column_or_nan_def)
    with False show ?thesis
      unfolding unfold
      by (simp only: map_of_stack if_False option.case nrows_stack concat_replicate)
  qed
qed

lemma stack_middle: "stack (xs @ stack g # zs) = stack (xs @ g @ zs)"
proof -
  have "unique (concat (map column_names xs) @ column_names (stack g)
                  @ concat (map column_names zs))
          = unique (concat (map column_names xs) @ concat (map column_names g)
                  @ concat (map column_names zs))"
    by (simp only: column_names_stack unique_mid)
  then show ?thesis
    by (simp add: stack_def [of "xs @ stack g # zs"] stack_def [of "xs @ g @ zs"] nrows_stack
          column_or_nan_stack)
qed

subsection \<open>One batch\<close>

lemma get_batch_world:
  assumes "get_batch pipeline self c start stop w = (r, w')"
  shows "requests w' = requests w @ [TwitterRequest c start stop (max_results self)]"
    and "files w' = files w" and "dirs w' = dirs w"
  using assms
  by (auto simp: get_batch_def Let_def info_def split: prod.splits sum.splits)

lemma get_batch_Inr:
  assumes "get_batch pipeline self c start stop w = (Inr b, w')"
  shows "\<exists>t0. fst (pipeline (TwitterRequest c start stop (max_results self))
                   (tweets_prefix self) (users_prefix self) (service w)) = Inr (t0, snd b)
              \<and> fst b = setitem_scalar t0 ''candidato'' (Str c)"
  using assms
  by (auto simp: get_batch_def Let_def split: prod.splits sum.splits)

lemma get_batch_Inl:
  assumes "get_batch pipeline self c start stop w = (Inl e, w')"
  shows "fst (pipeline (TwitterRequest c start stop (max_results self))
                   (tweets_prefix self) (users_prefix self) (service w)) = Inl e"
  using assms
  by (auto simp: get_batch_def Let_def split: prod.splits sum.splits)

lemma map_of_dict_set: "map_of (dict_set d k v) k = Some v"
  by (induction d k v rule: dict_set.induct) auto


lemma getitem_setitem_scalar:
  "getitem (setitem_scalar t c v) c = Inr (replicate (nrows t) v)"
  by (simp add: getitem_def setitem_scalar_def setitem_def map_of_dict_set)

lemma nrows_setitem_scalar: "nrows (setitem_scalar t c v) = nrows t"
  by (simp add: setitem_scalar_def setitem_def)


subsection \<open>The single loop\<close>

lemma fetch_all_append:
  "fetch_all pipeline self (xs @ ys) w =
     (case fetch_all pipeline self xs w of
        (Inl e, w') \<Rightarrow> (Inl e, w')
      | (Inr bs, w') \<Rightarrow>
          (case fetch_all pipeline self ys w' of
             (Inl e, w'') \<Rightarrow> (Inl e, w'')
           | (Inr bs', w'') \<Rightarrow> (Inr (bs @ bs'), w'')))"
proof (induction xs arbitrary: w)
  case Nil
  then show ?case by (simp split: prod.splits sum.splits)
next
  case (Cons x xs)
  obtain c start stop where x: "x = (c, start, stop)" by (cases x)
  show ?case
    by (simp add: x Cons.IH split: prod.splits sum.splits)
qed

lemma collect_dates_fetch_all:
  "collect_dates pipeline self c ds (tc, uc) w =
     (case fetch_all pipeline self (map (Pair c) ds) w of
        (Inl e, w') \<Rightarrow> (Inl e, w')
      | (Inr bs, w') \<Rightarrow> (Inr (tc @ map fst bs, uc @ map snd bs), w'))"
proof (induction ds arbitrary: tc uc w)
  case Nil
  then show ?case by simp
next
  case (Cons d ds)
  obtain start stop where d: "d = (start, stop)" by (cases d)
  show ?case
    by (simp add: d Cons.IH split: prod.splits sum.splits)
qed

lemma fetch_all_length:
  "fetch_all pipeline self xs w = (Inr bs, w') \<Longrightarrow> length bs = length xs"
proof (induction xs arbitrary: w bs)
  case Nil
  then show ?case by simp
next
  case (Cons x xs)
  obtain c start stop where x: "x = (c, start, stop)" by (cases x)
  from Cons.prems show ?case
    by (auto simp: x split: prod.splits sum.splits dest: Cons.IH)
qed

lemma fetch_all_disk:
  "fetch_all pipeline self xs w = (r, w') \<Longrightarrow> files w' = files w \<and> dirs w' = dirs w"
proof (induction xs arbitrary: w r w')
  case Nil
  then show ?case by simp
next
  case (Cons x xs)
  obtain c start stop where x: "x = (c, start, stop)" by (cases x)
  obtain r1 w1 where g: "get_batch pipeline self c start stop w = (r1, w1)"
    by (cases "get_batch pipeline self c start stop w")
  note d = get_batch_world(2,3) [OF g]
  show ?case
  proof (cases r1)
    case (Inl e)
    with Cons.prems g d show ?thesis by (simp add: x)
  next
    case (Inr b)
    obtain r2 w2 where f: "fetch_all pipeline self xs w1 = (r2, w2)"
      by (cases "fetch_all pipeline self xs w1")
    from Cons.IH [OF f] d have "files w2 = files w \<and> dirs w2 = dirs w" by simp
    moreover from Cons.prems g Inr f have "w' = w2"
      by (auto simp: x split: sum.splits)
    ultimately show ?thesis by simp
  qed
qed

lemma fetch_all_requests:
  "fetch_all pipeline self xs w = (Inr bs, w')
     \<Longrightarrow> requests w' = requests w @ map (request_of self) xs"
proof (induction xs arbitrary: w bs)
  case Nil
  then show ?case by simp
next
  case (Cons x xs)
  obtain c start stop where x: "x = (c, start, stop)" by (cases x)
  from Cons.prems obtain b w1 bs1 where
    g: "get_batch pipeline self c start stop w = (Inr b, w1)" and
    f: "fetch_all pipeline self xs w1 = (Inr bs1, w')"
    by (auto simp: x split: prod.splits sum.splits)
  from Cons.IH [OF f] get_batch_world(1) [OF g] show ?case
    by (simp add: x request_of_def)
qed

lemma fetch_all_failure_requests:
  "fetch_all pipeline self xs w = (Inl e, w')
     \<Longrightarrow> \<exists>k<length xs. requests w' = requests w @ map (request_of self) (take (Suc k) xs)"
proof (induction xs arbitrary: w)
  case Nil
  then show ?case by simp
next
  case (Cons x xs)
  obtain c start stop where x: "x = (c, start, stop)" by (cases x)
  obtain r1 w1 where g: "get_batch pipeline self c start stop w = (r1, w1)"
    by (cases "get_batch pipeline self c start stop w")
  note rq = get_batch_world(1) [OF g]
  show ?case
  proof (cases r1)
    case (Inl e1)
    with Cons.prems g have "w' = w1" by (simp add: x)
    with rq have "requests w' = requests w @ map (request_of self) (take (Suc 0) (x # xs))"
      by (simp add: x request_of_def)
    then show ?thesis by blast
  next
    case (Inr b)
    with Cons.prems g have f: "fetch_all pipeline self xs w1 = (Inl e, w')"
      by (auto simp: x split: prod.splits sum.splits)
    from Cons.IH [OF f] obtain k where k: "k < length xs"
      and r: "requests w' = requests w1 @ map (request_of self) (take (Suc k) xs)"
      by blast
    from r rq have "requests w' = requests w @ map (request_of self) (take (Suc (Suc k)) (x # xs))"
      by (simp add: x request_of_def)
    with k show ?thesis by (intro exI [of _ "Suc k"]) simp
  qed
qed

lemma fetch_all_batches:
  "fetch_all pipeline self xs w = (Inr bs, w') \<Longrightarrow>
     \<forall>i<length xs. \<exists>t0 s.
        fst (pipeline (request_of self (xs ! i)) (tweets_prefix self) (users_prefix self) s)
          = Inr (t0, snd (bs ! i))
        \<and> fst (bs ! i) = setitem_scalar t0 ''candidato'' (Str (fst (xs ! i)))"
proof (induction xs arbitrary: w bs)
  case Nil
  then show ?case by simp
next
  case (Cons x xs)
  obtain c start stop where x: "x = (c, start, stop)" by (cases x)
  from Cons.prems obtain b w1 bs1 where
    g: "get_batch pipeline self c start stop w = (Inr b, w1)" and
    f: "fetch_all pipeline self xs w1 = (Inr bs1, w')" and
    bs: "bs = b # bs1"
    by (auto simp: x split: prod.splits sum.splits)
  show ?case
  proof (intro allI impI)
    fix i assume i: "i < length (x # xs)"
    show "\<exists>t0 s.
        fst (pipeline (request_of self ((x # xs) ! i)) (tweets_prefix self) (users_prefix self) s)
          = Inr (t0, snd (bs ! i))
        \<and> fst (bs ! i) = setitem_scalar t0 ''candidato'' (Str (fst ((x # xs) ! i)))"
    proof (cases i)
      case 0
      with get_batch_Inr [OF g] show ?thesis
        by (auto simp: bs x request_of_def)
    next
      case (Suc j)
      with i Cons.IH [OF f] show ?thesis by (simp add: bs)
    qed
  qed
qed

subsection \<open>The two nested loops\<close>

lemma cells_Cons: "cells (c # cs) ds = map (Pair c) ds @ cells cs ds"
  by (simp add: cells_def)

lemma collect_candidates_Inl:
  assumes "ds \<noteq> []"
    and "fetch_all pipeline self (cells cs ds) w = (Inl e, w')"
  shows "collect_candidates pipeline self cs ds (tc, uc) w = (Inl e, w')"
  using assms(2)
proof (induction cs arbitrary: tc uc w)
  case Nil
  then show ?case by (simp add: cells_def)
next
  case (Cons c cs)
  obtain r1 w1 where f1: "fetch_all pipeline self (map (Pair c) ds) w = (r1, w1)"
    by (cases "fetch_all pipeline self (map (Pair c) ds) w")
  show ?case
  proof (cases r1)
    case (Inl e1)
    with Cons.prems f1 have "e1 = e" "w1 = w'"
      by (simp_all add: cells_Cons fetch_all_append)
    with f1 Inl show ?thesis by (simp add: collect_dates_fetch_all)
  next
    case (Inr bs1)
    with Cons.prems f1 have f2: "fetch_all pipeline self (cells cs ds) w1 = (Inl e, w')"
      by (auto simp: cells_Cons fetch_all_append split: prod.splits sum.splits)
    from fetch_all_length [OF f1 [unfolded Inr]] assms(1) have "bs1 \<noteq> []" by auto
    with f1 Inr Cons.IH [OF f2] show ?thesis
      by (simp add: collect_dates_fetch_all concat_frames_def)
  qed
qed

lemma collect_candidates_Inr:
  assumes "ds \<noteq> []"
    and "fetch_all pipeline self (cells cs ds) w = (Inr bs, w')"
  shows "\<exists>tc' uc'. collect_candidates pipeline self cs ds (tc, uc) w = (Inr (tc', uc'), w')
            \<and> stack tc' = stack (tc @ map fst bs) \<and> stack uc' = stack (uc @ map snd bs)
            \<and> length tc' = length tc + length cs \<and> length uc' = length uc + length cs"
  using assms(2)
proof (induction cs arbitrary: tc uc w bs)
  case Nil
  then show ?case by (simp add: cells_def)
next
  case (Cons c cs)
  from Cons.prems obtain bs1 w1 bs2 where
    f1: "fetch_all pipeline self (map (Pair c) ds) w = (Inr bs1, w1)" and
    f2: "fetch_all pipeline self (cells cs ds) w1 = (Inr bs2, w')" and
    bs: "bs = bs1 @ bs2"
    by (auto simp: cells_Cons fetch_all_append split: prod.splits sum.splits)
  from fetch_all_length [OF f1] assms(1) have ne: "bs1 \<noteq> []" by auto
  from Cons.IH [OF f2, of "tc @ [stack (map fst bs1)]" "uc @ [stack (map snd bs1)]"]
  obtain tc' uc' where
    c: "collect_candidates pipeline self cs ds
          (tc @ [stack (map fst bs1)], uc @ [stack (map snd bs1)]) w1 = (Inr (tc', uc'), w')" and
    t: "stack tc' = stack ((tc @ [stack (map fst bs1)]) @ map fst bs2)" and
    u: "stack uc' = stack ((uc @ [stack (map snd bs1)]) @ map snd bs2)" and
    l: "length tc' = length (tc @ [stack (map fst bs1)]) + length cs"
       "length uc' = length (uc @ [stack (map snd bs1)]) + length cs"
    by blast
  from f1 ne c have "collect_candidates pipeline self (c # cs) ds (tc, uc) w = (Inr (tc', uc'), w')"
    by (simp add: collect_dates_fetch_all concat_frames_def)
  moreover from t have "stack tc' = stack (tc @ map fst bs)"
    using stack_middle [of tc "map fst bs1" "map fst bs2"] by (simp add: bs)
  moreover from u have "stack uc' = stack (uc @ map snd bs)"
    using stack_middle [of uc "map snd bs1" "map snd bs2"] by (simp add: bs)
  ultimately show ?case using l by simp
qed


subsection \<open>\<open>download_tweets\<close>\<close>

lemma dates_loop_error: "dates_loop date e acc = Inl err \<Longrightarrow> err = OverflowError"
proof (induction date e acc rule: dates_loop.induct)
  case (1 date e acc)
  show ?case
  proof (cases "date < e")
    case False
    with "1.prems" show ?thesis by (simp add: dates_loop.simps)
  next
    case True
    show ?thesis
    proof (cases "datetime_add date delta")
      case (Inl e1)
      with True "1.prems" have "e1 = err" by (simp add: dates_loop.simps)
      with Inl show ?thesis by (auto simp: datetime_add_def split: if_splits)
    next
      case (Inr next_date)
      with True "1.prems" "1.IH" [OF True Inr] show ?thesis by (simp add: dates_loop.simps)
    qed
  qed
qed

lemma generate_dates_Inl: "generate_dates self = Inl err \<Longrightarrow> err = OverflowError"
  by (auto simp: generate_dates_def split: sum.splits dest: dates_loop_error)

lemma generate_dates_Inr:
  "generate_dates self = Inr self1 \<Longrightarrow> \<exists>ds. self1 = self\<lparr>dates := Some ds\<rparr>"
  by (auto simp: generate_dates_def split: sum.splits)

lemma generate_dates_empty:
  "\<not> start_date self < end_date self \<Longrightarrow> generate_dates self = Inr (self\<lparr>dates := Some []\<rparr>)"
  by (simp add: generate_dates_def dates_loop.simps)

lemma get_batch_dates:
  "get_batch pipeline (self\<lparr>dates := d\<rparr>) c start stop w = get_batch pipeline self c start stop w"
  by (simp add: get_batch_def)

lemma collect_dates_dates:
  "collect_dates pipeline (self\<lparr>dates := d\<rparr>) c ds acc w = collect_dates pipeline self c ds acc w"
proof (induction ds arbitrary: acc w)
  case Nil
  then show ?case by simp
next
  case (Cons x ds)
  obtain start stop where x: "x = (start, stop)" by (cases x)
  obtain tc uc where acc: "acc = (tc, uc)" by (cases acc)
  show ?case by (simp add: x acc get_batch_dates Cons.IH split: prod.splits sum.splits)
qed

lemma collect_candidates_dates:
  "collect_candidates pipeline (self\<lparr>dates := d\<rparr>) cs ds acc w
     = collect_candidates pipeline self cs ds acc w"
proof (induction cs arbitrary: acc w)
  case Nil
  then show ?case by simp
next
  case (Cons c cs)
  obtain tc uc where acc: "acc = (tc, uc)" by (cases acc)
  show ?case by (simp add: acc collect_dates_dates Cons.IH split: prod.splits sum.splits)
qed

lemma download_tweets_unfold:
  assumes "generate_dates self = Inr (self\<lparr>dates := Some ds\<rparr>)"
  shows "download_tweets pipeline self w =
     (case collect_candidates pipeline self (candidates self) ds ([], [])
             (info (DatesGenerated (length ds)) w) of
        (Inl e, w') \<Rightarrow> (Inl e, self\<lparr>dates := Some ds\<rparr>, w')
      | (Inr (tweets_collector, users_collector), w') \<Rightarrow>
          (case concat_frames tweets_collector of
             Inl e \<Rightarrow> (Inl e, self\<lparr>dates := Some ds\<rparr>, w')
           | Inr t \<Rightarrow>
               (case concat_frames users_collector of
                  Inl e \<Rightarrow> (Inl e, self\<lparr>dates := Some ds, tweets := Some t\<rparr>, w')
                | Inr u \<Rightarrow>
                    (Inr (t, u), self\<lparr>dates := Some ds, tweets := Some t, users := Some u\<rparr>,
                     info (TotalDownloaded (nrows t) (nrows u)) w'))))"
  by (simp add: download_tweets_def assms collect_candidates_dates)

lemma download_tweets_empty:
  assumes "generate_dates self = Inr (self\<lparr>dates := Some ds\<rparr>)"
    and "candidates self = [] \<or> ds = []"
  shows "download_tweets pipeline self w =
           (Inl (ValueError ''No objects to concatenate''), self\<lparr>dates := Some ds\<rparr>,
            info (DatesGenerated (length ds)) w)"
proof (cases "candidates self")
  case Nil
  then show ?thesis
    by (simp add: download_tweets_unfold [OF assms(1)] concat_frames_def)
next
  case (Cons c cs)
  with assms(2) have "ds = []" by simp
  with Cons show ?thesis
    by (simp add: download_tweets_unfold [OF assms(1)] concat_frames_def)
qed

lemma download_tweets_raises:
  assumes "generate_dates self = Inr (self\<lparr>dates := Some ds\<rparr>)"
    and "fetch_all pipeline self (cells (candidates self) ds)
           (info (DatesGenerated (length ds)) w) = (Inl e, w')"
  shows "download_tweets pipeline self w = (Inl e, self\<lparr>dates := Some ds\<rparr>, w')"
proof -
  have "ds \<noteq> []"
  proof
    assume "ds = []"
    then have "cells (candidates self) ds = []" by (simp add: cells_def)
    with assms(2) show False by simp
  qed
  from collect_candidates_Inl [OF this assms(2)] show ?thesis
    by (simp add: download_tweets_unfold [OF assms(1)])
qed

lemma download_tweets_returns:
  assumes "generate_dates self = Inr (self\<lparr>dates := Some ds\<rparr>)"
    and "candidates self \<noteq> []" and "ds \<noteq> []"
    and "fetch_all pipeline self (cells (candidates self) ds)
           (info (DatesGenerated (length ds)) w) = (Inr bs, w')"
  shows "download_tweets pipeline self w =
           (Inr (stack (map fst bs), stack (map snd bs)),
            self\<lparr>dates := Some ds, tweets := Some (stack (map fst bs)),
                 users := Some (stack (map snd bs))\<rparr>,
            info (TotalDownloaded (nrows (stack (map fst bs))) (nrows (stack (map snd bs)))) w')"
proof -
  from collect_candidates_Inr [OF assms(3,4), of "[]" "[]"] obtain tc' uc' where
    c: "collect_candidates pipeline self (candidates self) ds ([], [])
          (info (DatesGenerated (length ds)) w) = (Inr (tc', uc'), w')" and
    t: "stack tc' = stack (map fst bs)" and u: "stack uc' = stack (map snd bs)" and
    l: "length tc' = length (candidates self)" "length uc' = length (candidates self)"
    by auto
  from l assms(2) have "tc' \<noteq> []" "uc' \<noteq> []" by auto
  with c t u show ?thesis
    by (simp add: download_tweets_unfold [OF assms(1)] concat_frames_def)
qed

text \<open>What a successful run of \<open>download_tweets\<close> went through.\<close>

lemma download_tweets_Inr:
  assumes "download_tweets pipeline self w = (Inr (t, u), self', w')"
  shows "\<exists>ds bs w1.
           generate_dates self = Inr (self\<lparr>dates := Some ds\<rparr>)
         \<and> candidates self \<noteq> [] \<and> ds \<noteq> []
         \<and> fetch_all pipeline self (cells (candidates self) ds)
               (info (DatesGenerated (length ds)) w) = (Inr bs, w1)
         \<and> t = stack (map fst bs) \<and> u = stack (map snd bs)
         \<and> w' = info (TotalDownloaded (nrows t) (nrows u)) w1"
proof (cases "generate_dates self")
  case (Inl e)
  with assms show ?thesis by (simp add: download_tweets_def)
next
  case (Inr self1)
  with generate_dates_Inr obtain ds where gen: "generate_dates self = Inr (self\<lparr>dates := Some ds\<rparr>)"
    by blast
  have ne: "candidates self \<noteq> [] \<and> ds \<noteq> []"
  proof (rule ccontr)
    assume "\<not> (candidates self \<noteq> [] \<and> ds \<noteq> [])"
    then have "candidates self = [] \<or> ds = []" by blast
    from download_tweets_empty [OF gen this, of pipeline w] assms show False by simp
  qed
  obtain r w1 where fa: "fetch_all pipeline self (cells (candidates self) ds)
               (info (DatesGenerated (length ds)) w) = (r, w1)"
    by (cases "fetch_all pipeline self (cells (candidates self) ds)
               (info (DatesGenerated (length ds)) w)")
  show ?thesis
  proof (cases r)
    case (Inl e)
    from download_tweets_raises [OF gen fa [unfolded Inl]] assms have False by simp
    then show ?thesis ..
  next
    case (Inr bs)
    from ne have c: "candidates self \<noteq> []" and d: "ds \<noteq> []" by simp_all
    from download_tweets_returns [OF gen c d fa [unfolded Inr]] assms
    have "t = stack (map fst bs)" "u = stack (map snd bs)"
      "w' = info (TotalDownloaded (nrows t) (nrows u)) w1"
      by simp_all
    with gen ne fa Inr show ?thesis by blast
  qed
qed

lemma getitem_column_or_nan: "getitem df c = Inr vs \<Longrightarrow> column_or_nan c df = vs"
  by (auto simp: getitem_def column_or_nan_def split: option.splits)

lemma getitem_stack:
  assumes "df \<in> set dfs" and "getitem df c = Inr vs"
  shows "getitem (stack dfs) c = Inr (concat (map (column_or_nan c) dfs))"
proof -
  from assms(2) have "c \<in> set (column_names df)"
    by (auto simp: getitem_def column_names_def split: option.splits dest!: map_of_SomeD)
       (metis fst_conv image_eqI)
  with assms(1) have "c \<in> set (concat (map column_names dfs))" by auto
  then show ?thesis
    by (simp only: getitem_def map_of_stack if_True option.case)
qed

lemma requests_info: "requests (info m w) = requests w"
  by (simp add: info_def)

text \<open>
  Claim C2. When \<open>download_tweets\<close> returns its two tables, the requests it has run
  are exactly one per pair of a candidate and a date pair, candidate by candidate and
  date pair by date pair; the run went through \<open>get_batch\<close> once per pair, in that order;
  the tweets table is the batches of tweets stacked in that order, the users table the
  batches of users; and the column \<open>candidato\<close> holds, for the rows of each batch, the
  candidate that the batch was requested for.
\<close>

theorem download_tweets_order:
  assumes "download_tweets pipeline self w = (Inr (t, u), self', w')"
  shows "\<exists>ds bs w1.
           generate_dates self = Inr (self\<lparr>dates := Some ds\<rparr>)
         \<and> requests w' = requests w @ map (request_of self) (cells (candidates self) ds)
         \<and> fetch_all pipeline self (cells (candidates self) ds)
               (info (DatesGenerated (length ds)) w) = (Inr bs, w1)
         \<and> length bs = length (cells (candidates self) ds)
         \<and> t = stack (map fst bs) \<and> u = stack (map snd bs)
         \<and> (\<forall>i<length bs. getitem (fst (bs ! i)) ''candidato''
                = Inr (replicate (nrows (fst (bs ! i)))
                         (Str (fst (cells (candidates self) ds ! i)))))
         \<and> getitem t ''candidato''
             = Inr (concat (map (\<lambda>(x, b). replicate (nrows (fst b)) (Str (fst x)))
                              (zip (cells (candidates self) ds) bs)))"
proof -
  from download_tweets_Inr [OF assms] obtain ds bs w1 where
    gen: "generate_dates self = Inr (self\<lparr>dates := Some ds\<rparr>)" and
    ne: "candidates self \<noteq> []" "ds \<noteq> []" and
    fa: "fetch_all pipeline self (cells (candidates self) ds)
               (info (DatesGenerated (length ds)) w) = (Inr bs, w1)" and
    t: "t = stack (map fst bs)" and u: "u = stack (map snd bs)" and
    w': "w' = info (TotalDownloaded (nrows t) (nrows u)) w1"
    by blast
  let ?xs = "cells (candidates self) ds"
  have len: "length bs = length ?xs" by (rule fetch_all_length [OF fa])
  have rq: "requests w' = requests w @ map (request_of self) ?xs"
    using fetch_all_requests [OF fa] by (simp add: w' requests_info)
  have lab: "\<forall>i<length bs. getitem (fst (bs ! i)) ''candidato''
                = Inr (replicate (nrows (fst (bs ! i))) (Str (fst (?xs ! i))))"
  proof (intro allI impI)
    fix i assume "i < length bs"
    with len fetch_all_batches [OF fa] obtain t0 where
      "fst (bs ! i) = setitem_scalar t0 ''candidato'' (Str (fst (?xs ! i)))"
      by force
    then show "getitem (fst (bs ! i)) ''candidato''
                = Inr (replicate (nrows (fst (bs ! i))) (Str (fst (?xs ! i))))"
      by (simp add: getitem_setitem_scalar nrows_setitem_scalar)
  qed
  from ne have "?xs \<noteq> []" by (cases "candidates self"; cases ds) (auto simp: cells_def)
  with len have bne: "bs \<noteq> []" by auto
  then have "0 < length bs" by simp
  with lab have g0: "getitem (fst (bs ! 0)) ''candidato''
                = Inr (replicate (nrows (fst (bs ! 0))) (Str (fst (?xs ! 0))))"
    by blast
  from bne have "fst (bs ! 0) \<in> set (map fst bs)" by (cases bs) auto
  from getitem_stack [OF this g0]
  have "getitem t ''candidato'' = Inr (concat (map (column_or_nan ''candidato'') (map fst bs)))"
    by (simp add: t)
  moreover have "map (column_or_nan ''candidato'') (map fst bs)
      = map (\<lambda>(x, b). replicate (nrows (fst b)) (Str (fst x))) (zip ?xs bs)"
  proof (rule nth_equalityI)
    show "length (map (column_or_nan ''candidato'') (map fst bs))
            = length (map (\<lambda>(x, b). replicate (nrows (fst b)) (Str (fst x))) (zip ?xs bs))"
      by (simp add: len)
  next
    fix i assume "i < length (map (column_or_nan ''candidato'') (map fst bs))"
    then have i: "i < length bs" by simp
    with lab have "column_or_nan ''candidato'' (fst (bs ! i))
        = replicate (nrows (fst (bs ! i))) (Str (fst (?xs ! i)))"
      by (simp add: getitem_column_or_nan)
    with i len show "map (column_or_nan ''candidato'') (map fst bs) ! i
        = map (\<lambda>(x, b). replicate (nrows (fst b)) (Str (fst x))) (zip ?xs bs) ! i"
      by simp
  qed
  ultimately have col: "getitem t ''candidato''
             = Inr (concat (map (\<lambda>(x, b). replicate (nrows (fst b)) (Str (fst x)))
                              (zip ?xs bs)))"
    by simp
  from gen rq fa len t u lab col show ?thesis by blast
qed

lemma two_day_run:
  "download_tweets counting_pipeline two_day_object empty_world =
     (Inr (two_day_tweets, two_day_users),
      two_day_object\<lparr>dates := Some two_day_windows, tweets := Some two_day_tweets,
                      users := Some two_day_users\<rparr>,
      two_day_world)"
  by code_simp

theorem download_tweets_order_witness:
  "download_tweets counting_pipeline two_day_object empty_world =
     (Inr (two_day_tweets, two_day_users),
      two_day_object\<lparr>dates := Some two_day_windows, tweets := Some two_day_tweets,
                      users := Some two_day_users\<rparr>,
      two_day_world)
   \<and> (\<exists>ds bs w1.
           generate_dates two_day_object = Inr (two_day_object\<lparr>dates := Some ds\<rparr>)
         \<and> requests two_day_world
             = requests empty_world
               @ map (request_of two_day_object) (cells (candidates two_day_object) ds)
         \<and> fetch_all counting_pipeline two_day_object (cells (candidates two_day_object) ds)
               (info (DatesGenerated (length ds)) empty_world) = (Inr bs, w1)
         \<and> length bs = length (cells (candidates two_day_object) ds)
         \<and> two_day_tweets = stack (map fst bs) \<and> two_day_users = stack (map snd bs)
         \<and> (\<forall>i<length bs. getitem (fst (bs ! i)) ''candidato''
                = Inr (replicate (nrows (fst (bs ! i)))
                         (Str (fst (cells (candidates two_day_object) ds ! i)))))
         \<and> getitem two_day_tweets ''candidato''
             = Inr (concat (map (\<lambda>(x, b). replicate (nrows (fst b)) (Str (fst x)))
                              (zip (cells (candidates two_day_object) ds) bs))))"
proof (rule conjI)
  show "download_tweets counting_pipeline two_day_object empty_world =
     (Inr (two_day_tweets, two_day_users),
      two_day_object\<lparr>dates := Some two_day_windows, tweets := Some two_day_tweets,
                      users := Some two_day_users\<rparr>,
      two_day_world)"
    by (rule two_day_run)
next
  show "\<exists>ds bs w1.
           generate_dates two_day_object = Inr (two_day_object\<lparr>dates := Some ds\<rparr>)
         \<and> requests two_day_world
             = requests empty_world
               @ map (request_of two_day_object) (cells (candidates two_day_object) ds)
         \<and> fetch_all counting_pipeline two_day_object (cells (candidates two_day_object) ds)
               (info (DatesGenerated (length ds)) empty_world) = (Inr bs, w1)
         \<and> length bs = length (cells (candidates two_day_object) ds)
         \<and> two_day_tweets = stack (map fst bs) \<and> two_day_users = stack (map snd bs)
         \<and> (\<forall>i<length bs. getitem (fst (bs ! i)) ''candidato''
                = Inr (replicate (nrows (fst (bs ! i)))
                         (Str (fst (cells (candidates two_day_object) ds ! i)))))
         \<and> getitem two_day_tweets ''candidato''
             = Inr (concat (map (\<lambda>(x, b). replicate (nrows (fst b)) (Str (fst x)))
                              (zip (cells (candidates two_day_object) ds) bs)))"
    by (rule download_tweets_order [OF two_day_run])
qed


lemma files_info: "files (info m w) = files w" "dirs (info m w) = dirs w"
  by (simp_all add: info_def)

lemma main_module:
  "main pipeline w0 =
     (case download_tweets pipeline module_object (info Initialized w0) of
        (Inl e, self', w2) \<Rightarrow> (Inl e, w2\<lparr>logged := logged w2 @ [ERROR (FailedToDownload e)]\<rparr>)
      | (Inr r, self', w2) \<Rightarrow> (Inr r, w2))"
  by (simp add: main_def init_def module_object_def)

text \<open>
  Claim C6. When one of the calls of \<open>get_batch\<close> raises, \<open>download_tweets\<close> raises
  the same exception: it returns no table, the attributes \<open>tweets\<close> and \<open>users\<close> of
  the object are not set, no further request is run, and nothing on disk has changed.
  For the object and the world of \<open>main\<close>, \<open>main\<close> logs the exception at error level and
  raises it again, and the script ends with it before any file is written.
\<close>

theorem download_tweets_failure:
  assumes "generate_dates self = Inr (self\<lparr>dates := Some ds\<rparr>)"
    and "fetch_all pipeline self (cells (candidates self) ds)
           (info (DatesGenerated (length ds)) w) = (Inl e, w')"
  shows "download_tweets pipeline self w = (Inl e, self\<lparr>dates := Some ds\<rparr>, w')
         \<and> tweets (self\<lparr>dates := Some ds\<rparr>) = tweets self
         \<and> users (self\<lparr>dates := Some ds\<rparr>) = users self
         \<and> files w' = files w \<and> dirs w' = dirs w
         \<and> (\<exists>k<length (cells (candidates self) ds).
               requests w' = requests w
                 @ map (request_of self) (take (Suc k) (cells (candidates self) ds)))
         \<and> (self = module_object \<and> w = info Initialized w0 \<longrightarrow>
               main pipeline w0
                 = (Inl e, w'\<lparr>logged := logged w' @ [ERROR (FailedToDownload e)]\<rparr>)
             \<and> script pipeline w0
                 = (Some e, w'\<lparr>logged := logged w' @ [ERROR (FailedToDownload e)]\<rparr>)
             \<and> files (snd (script pipeline w0)) = files w0
             \<and> dirs (snd (script pipeline w0)) = dirs w0)"
proof -
  have d: "download_tweets pipeline self w = (Inl e, self\<lparr>dates := Some ds\<rparr>, w')"
    by (rule download_tweets_raises [OF assms])
  from fetch_all_disk [OF assms(2)] have disk: "files w' = files w" "dirs w' = dirs w"
    by (simp_all add: files_info)
  from fetch_all_failure_requests [OF assms(2)]
  have rq: "\<exists>k<length (cells (candidates self) ds).
               requests w' = requests w
                 @ map (request_of self) (take (Suc k) (cells (candidates self) ds))"
    by (simp add: requests_info)
  have m: "self = module_object \<and> w = info Initialized w0 \<longrightarrow>
               main pipeline w0
                 = (Inl e, w'\<lparr>logged := logged w' @ [ERROR (FailedToDownload e)]\<rparr>)
             \<and> script pipeline w0
                 = (Some e, w'\<lparr>logged := logged w' @ [ERROR (FailedToDownload e)]\<rparr>)
             \<and> files (snd (script pipeline w0)) = files w0
             \<and> dirs (snd (script pipeline w0)) = dirs w0"
  proof
    assume a: "self = module_object \<and> w = info Initialized w0"
    with d have "download_tweets pipeline module_object (info Initialized w0)
                   = (Inl e, self\<lparr>dates := Some ds\<rparr>, w')"
      by simp
    then have mm: "main pipeline w0
                 = (Inl e, w'\<lparr>logged := logged w' @ [ERROR (FailedToDownload e)]\<rparr>)"
      by (simp add: main_module)
    then have ss: "script pipeline w0
                 = (Some e, w'\<lparr>logged := logged w' @ [ERROR (FailedToDownload e)]\<rparr>)"
      by (simp add: script_def)
    from ss disk a have "files (snd (script pipeline w0)) = files w0"
      "dirs (snd (script pipeline w0)) = dirs w0"
      by (simp_all add: files_info)
    with mm ss show "main pipeline w0
                 = (Inl e, w'\<lparr>logged := logged w' @ [ERROR (FailedToDownload e)]\<rparr>)
             \<and> script pipeline w0
                 = (Some e, w'\<lparr>logged := logged w' @ [ERROR (FailedToDownload e)]\<rparr>)
             \<and> files (snd (script pipeline w0)) = files w0
             \<and> dirs (snd (script pipeline w0)) = dirs w0"
      by simp
  qed
  have tu: "tweets (self\<lparr>dates := Some ds\<rparr>) = tweets self"
    "users (self\<lparr>dates := Some ds\<rparr>) = users self"
    by simp_all
  from d tu disk rq m show ?thesis by blast
qed

lemma module_generate_dates:
  "generate_dates module_object = Inr (module_object\<lparr>dates := Some module_windows\<rparr>)"
  by (simp add: module_object_def new_object_def module_start_date_def module_end_date_def
        datetime_values generate_dates_def module_dates module_windows_def)

lemma module_third_request:
  "fetch_all failing_pipeline module_object (cells (candidates module_object) module_windows)
     (info (DatesGenerated (length module_windows)) (info Initialized empty_world))
     = (Inl (Upstream ''TooManyRequests'' ''429''), third_request_world)"
  by code_simp

theorem download_tweets_failure_witness:
  "generate_dates module_object = Inr (module_object\<lparr>dates := Some module_windows\<rparr>)
   \<and> fetch_all failing_pipeline module_object
         (cells (candidates module_object) module_windows)
         (info (DatesGenerated (length module_windows)) (info Initialized empty_world))
       = (Inl (Upstream ''TooManyRequests'' ''429''), third_request_world)
   \<and> download_tweets failing_pipeline module_object (info Initialized empty_world)
       = (Inl (Upstream ''TooManyRequests'' ''429''),
          module_object\<lparr>dates := Some module_windows\<rparr>, third_request_world)
   \<and> main failing_pipeline empty_world
       = (Inl (Upstream ''TooManyRequests'' ''429''),
          third_request_world\<lparr>logged := logged third_request_world
             @ [ERROR (FailedToDownload (Upstream ''TooManyRequests'' ''429''))]\<rparr>)
   \<and> script failing_pipeline empty_world
       = (Some (Upstream ''TooManyRequests'' ''429''),
          third_request_world\<lparr>logged := logged third_request_world
             @ [ERROR (FailedToDownload (Upstream ''TooManyRequests'' ''429''))]\<rparr>)
   \<and> files (snd (script failing_pipeline empty_world)) = files empty_world"
proof -
  note t = download_tweets_failure [OF module_generate_dates module_third_request, of empty_world]
  from t have 1: "download_tweets failing_pipeline module_object (info Initialized empty_world)
       = (Inl (Upstream ''TooManyRequests'' ''429''),
          module_object\<lparr>dates := Some module_windows\<rparr>, third_request_world)"
    by blast
  from t have 2: "main failing_pipeline empty_world
       = (Inl (Upstream ''TooManyRequests'' ''429''),
          third_request_world\<lparr>logged := logged third_request_world
             @ [ERROR (FailedToDownload (Upstream ''TooManyRequests'' ''429''))]\<rparr>)"
    by blast
  from t have 3: "script failing_pipeline empty_world
       = (Some (Upstream ''TooManyRequests'' ''429''),
          third_request_world\<lparr>logged := logged third_request_world
             @ [ERROR (FailedToDownload (Upstream ''TooManyRequests'' ''429''))]\<rparr>)"
    by blast
  from t have 4: "files (snd (script failing_pipeline empty_world)) = files empty_world"
    by blast
  from module_generate_dates module_third_request 1 2 3 4 show ?thesis
    by (intro conjI)
qed

text \<open>
  Claim C9, as amended. Neither the constructor nor \<open>download_tweets\<close> checks its
  configuration. With no candidate, or with a start that is not before the end (which
  gives no date pair), \<open>download_tweets\<close> still fails, before any request is run: it
  raises the ValueError of \<open>pd.concat\<close> for an empty list (or, with no candidate and a
  range at the very end of the datetime range, the OverflowError of \<open>generate_dates\<close>).
\<close>

theorem download_tweets_invalid_config:
  assumes "candidates self = [] \<or> \<not> start_date self < end_date self"
  shows "\<exists>e self' w'. download_tweets pipeline self w = (Inl e, self', w')
           \<and> (e = ValueError ''No objects to concatenate'' \<or> e = OverflowError)
           \<and> (\<not> start_date self < end_date self
                \<longrightarrow> e = ValueError ''No objects to concatenate'')
           \<and> requests w' = requests w"
proof (cases "start_date self < end_date self")
  case False
  from generate_dates_empty [OF False] have gen: "generate_dates self = Inr (self\<lparr>dates := Some []\<rparr>)" .
  from download_tweets_empty [OF gen, of pipeline w]
  have "download_tweets pipeline self w =
           (Inl (ValueError ''No objects to concatenate''), self\<lparr>dates := Some []\<rparr>,
            info (DatesGenerated (length ([] :: (string \<times> string) list))) w)"
    by simp
  then show ?thesis by (simp add: requests_info)
next
  case True
  with assms have c: "candidates self = []" by simp
  show ?thesis
  proof (cases "generate_dates self")
    case (Inl err)
    with generate_dates_Inl have "err = OverflowError" by blast
    with Inl True show ?thesis by (simp add: download_tweets_def)
  next
    case (Inr self1)
    with generate_dates_Inr obtain ds where
      gen: "generate_dates self = Inr (self\<lparr>dates := Some ds\<rparr>)"
      by blast
    from c have "candidates self = [] \<or> ds = []" by simp
    from download_tweets_empty [OF gen this, of pipeline w] True show ?thesis
      by (simp add: requests_info)
  qed
qed

theorem download_tweets_invalid_config_witness:
  "(candidates (two_day_object\<lparr>candidates := []\<rparr>) = []
      \<or> \<not> start_date (two_day_object\<lparr>candidates := []\<rparr>)
            < end_date (two_day_object\<lparr>candidates := []\<rparr>))
   \<and> (\<exists>e self' w'.
          download_tweets counting_pipeline (two_day_object\<lparr>candidates := []\<rparr>) empty_world
            = (Inl e, self', w')
          \<and> (e = ValueError ''No objects to concatenate'' \<or> e = OverflowError)
          \<and> (\<not> start_date (two_day_object\<lparr>candidates := []\<rparr>)
                  < end_date (two_day_object\<lparr>candidates := []\<rparr>)
               \<longrightarrow> e = ValueError ''No objects to concatenate'')
          \<and> requests w' = requests empty_world)"
proof -
  have h: "candidates (two_day_object\<lparr>candidates := []\<rparr>) = []
      \<or> \<not> start_date (two_day_object\<lparr>candidates := []\<rparr>)
            < end_date (two_day_object\<lparr>candidates := []\<rparr>)"
    by simp
  from download_tweets_invalid_config [OF h, of counting_pipeline empty_world] h
  show ?thesis by (intro conjI)
qed

text \<open>
  Claim C9 as stated names the exception ConfigError; with no candidate, and with the
  end of the range equal to its start, the exception is
  \<open>ValueError("No objects to concatenate")\<close>.
\<close>

theorem config_error_counterexample:
  "fst (download_tweets counting_pipeline (two_day_object\<lparr>candidates := []\<rparr>) empty_world)
     = Inl (ValueError ''No objects to concatenate'')
   \<and> fst (download_tweets counting_pipeline
            (two_day_object\<lparr>end_date := start_date two_day_object\<rparr>) empty_world)
     = Inl (ValueError ''No objects to concatenate'')
   \<and> class_name (ValueError ''No objects to concatenate'') \<noteq> ''ConfigError''"
proof -
  have 1: "fst (download_tweets counting_pipeline (two_day_object\<lparr>candidates := []\<rparr>) empty_world)
     = Inl (ValueError ''No objects to concatenate'')"
    by code_simp
  have 2: "fst (download_tweets counting_pipeline
            (two_day_object\<lparr>end_date := start_date two_day_object\<rparr>) empty_world)
     = Inl (ValueError ''No objects to concatenate'')"
    by code_simp
  have 3: "class_name (ValueError ''No objects to concatenate'') \<noteq> ''ConfigError''"
    by simp
  from 1 2 3 show ?thesis by (intro conjI)
qed

subsection \<open>The columns of the two tables\<close>






end
